theory Spec2Isabelle
  imports Main "HOL-Library.AList"
begin

text \<open>
  A shallow embedding of the main process of the game launcher
  (\<^verbatim>\<open>src/unnamed/part_000\<close>, an ES module and therefore strict-mode JavaScript): the
  profile store (\<^verbatim>\<open>loadProfile\<close>, \<^verbatim>\<open>saveProfile\<close>), the extraction progress handler,
  the executable locator (\<^verbatim>\<open>findExecutable\<close>) and the handlers built on them.
  The first chapter holds the model, the second the properties proved about it.
\<close>

chapter \<open>The model\<close>

section \<open>JavaScript values\<close>

text \<open>
  The values that \<^verbatim>\<open>JSON.parse\<close> returns and that the code then mutates.  Numbers are
  modelled as integers (the profile stores whole seconds and levels).  An object is the
  list of its own properties in insertion order; an array carries its elements and, as
  every JavaScript array may, named properties beside them (\<^verbatim>\<open>JSON.parse\<close> never
  produces any, but \<^verbatim>\<open>game.playtime = ...\<close> on an array record creates one).
  The value \<^verbatim>\<open>undefined\<close> only occurs as the result of reading a missing property and
  is the \<open>None\<close> of \<open>jsval option\<close>.  The enumeration order of integer-like keys
  (which JavaScript sorts first) is not modelled; every statement below reads objects
  by key.
\<close>

datatype jsval =
    JNull
  | JBool bool
  | JNum int
  | JStr string
  | JArr "jsval list" "(string \<times> jsval) list"
  | JObj "(string \<times> jsval) list"

datatype js_error = TypeError | SyntaxError | IOError | ReferenceError string

text \<open>
  Reading a named (non-index) property \<^verbatim>\<open>v.k\<close> of a value other than
  \<^verbatim>\<open>null\<close>: own properties only, since none of the keys the code reads is defined on
  \<^verbatim>\<open>Object.prototype\<close> or \<^verbatim>\<open>Array.prototype\<close>; a primitive has no such property.
\<close>

definition props :: "jsval \<Rightarrow> (string \<times> jsval) list" where
  "props v = (case v of JObj ps \<Rightarrow> ps | JArr xs ps \<Rightarrow> ps | _ \<Rightarrow> [])"

definition prop_get :: "jsval \<Rightarrow> string \<Rightarrow> jsval option" where
  "prop_get v k = map_of (props v) k"

text \<open>Truthiness, and \<^verbatim>\<open>a || b\<close>.\<close>

fun truthy :: "jsval option \<Rightarrow> bool" where
  "truthy None = False"
| "truthy (Some JNull) = False"
| "truthy (Some (JBool b)) = b"
| "truthy (Some (JNum n)) = (n \<noteq> 0)"
| "truthy (Some (JStr s)) = (s \<noteq> [])"
| "truthy (Some (JArr xs ps)) = True"
| "truthy (Some (JObj ps)) = True"

definition or_else :: "jsval option \<Rightarrow> jsval \<Rightarrow> jsval" where
  "or_else a b = (case a of Some v \<Rightarrow> if truthy a then v else b | None \<Rightarrow> b)"

text \<open>\<^verbatim>\<open>typeof x === 'object'\<close> (true of \<^verbatim>\<open>null\<close>) and \<^verbatim>\<open>Array.isArray(x)\<close>.\<close>

fun typeof_object :: "jsval option \<Rightarrow> bool" where
  "typeof_object (Some JNull) = True"
| "typeof_object (Some (JArr xs ps)) = True"
| "typeof_object (Some (JObj ps)) = True"
| "typeof_object v = False"

fun isArray :: "jsval option \<Rightarrow> bool" where
  "isArray (Some (JArr xs ps)) = True"
| "isArray v = False"

text \<open>
  The assignment \<^verbatim>\<open>target.k = v\<close> for a named key.  On an object or an array the
  property is replaced in place or appended; on \<^verbatim>\<open>null\<close> it throws, and in strict
  mode it throws on a primitive as well.
\<close>

fun assign :: "jsval \<Rightarrow> string \<Rightarrow> jsval \<Rightarrow> js_error + jsval" where
  "assign (JObj ps) k v = Inr (JObj (AList.update k v ps))"
| "assign (JArr xs ps) k v = Inr (JArr xs (AList.update k v ps))"
| "assign target k v = Inl TypeError"

text \<open>
  What \<^verbatim>\<open>JSON.parse(JSON.stringify(v))\<close> yields for a value of this type: the named
  properties of arrays are not serialised, everything else is kept.
\<close>

fun stringify :: "jsval \<Rightarrow> jsval" where
  "stringify (JArr xs ps) = JArr (map stringify xs) []"
| "stringify (JObj ps) = JObj (map (\<lambda>(k, v). (k, stringify v)) ps)"
| "stringify v = v"

text \<open>Sequencing of computations that may throw.\<close>

definition and_then :: "'e + 'a \<Rightarrow> ('a \<Rightarrow> 'e + 'b) \<Rightarrow> 'e + 'b" where
  "and_then m f = (case m of Inl e \<Rightarrow> Inl e | Inr x \<Rightarrow> f x)"

section \<open>Observer events\<close>

text \<open>
  The main process talks to the renderer through named channels
  (\<^verbatim>\<open>event.sender.send\<close>, \<^verbatim>\<open>win.webContents.send\<close>).  Each channel used by the
  code under study is one constructor; the payload fields follow the object literal
  that the source sends.
\<close>

datatype event =
    DecompressionStart string
  | DecompressionProgress string nat
  | DecompressionComplete string
  | DecompressionError string string
  | ProfileLoaded jsval
  | UpdatePlaytime string
  | TorrentProgress string

section \<open>The profile store\<close>

text \<open>
  The file \<^verbatim>\<open>user_data.json\<close> as \<^verbatim>\<open>loadProfile\<close> can find it: missing
  (\<^verbatim>\<open>existsSync\<close> false), unreadable (\<^verbatim>\<open>readFileSync\<close> throws), empty or blank,
  text that \<^verbatim>\<open>JSON.parse\<close> rejects, or text that parses to a value.  The text layer of
  JSON is abstracted: a parsable file is identified with the value it parses to.
\<close>

datatype file_content = NoFile | ReadFails | Blank | Unparsable | JsonText jsval

text \<open>
  The state of the main process that the handlers share: the profile file, the
  module-level \<^verbatim>\<open>extractionPaths\<close> map (insertion-ordered, keys are item ids), the
  number of open windows, and the log of events delivered to the renderer.
\<close>

record main_state =
  user_data_file :: file_content
  extractionPaths :: "(string \<times> jsval) list"
  windows :: nat
  outbox :: "event list"

text \<open>\<^verbatim>\<open>BrowserWindow.getAllWindows().forEach(win => win.webContents.send(...))\<close>.\<close>

definition broadcast :: "event \<Rightarrow> main_state \<Rightarrow> main_state" where
  "broadcast e st = st\<lparr> outbox := outbox st @ replicate (windows st) e \<rparr>"

text \<open>Source line 42: the profile returned when nothing usable is on disk.\<close>

definition defaultProfile :: jsval where
  "defaultProfile =
     JObj [(''library'', JArr [] []),
           (''user'', JObj [(''name'', JStr ''User''), (''level'', JNum 0),
                           (''picture'', JNull), (''expositors'', JArr [] [])]),
           (''extractionPaths'', JObj [])]"

text \<open>
  Source lines 61-63: \<^verbatim>\<open>library.forEach(game => { game.playtime = game.playtime || 0 })\<close>.
  The first record on which the assignment throws ends the loop.
\<close>

fun backfill_playtime :: "jsval list \<Rightarrow> js_error + jsval list" where
  "backfill_playtime [] = Inr []"
| "backfill_playtime (game # rest) =
     (case assign game ''playtime'' (or_else (prop_get game ''playtime'') (JNum 0)) of
        Inl e \<Rightarrow> Inl e
      | Inr game' \<Rightarrow>
          (case backfill_playtime rest of
             Inl e \<Rightarrow> Inl e
           | Inr rest' \<Rightarrow> Inr (game' # rest')))"

text \<open>
  Source lines 66-71: the user object is replaced by a fresh object of four fields.
  Reading a field of \<^verbatim>\<open>null\<close> (which passes the \<^verbatim>\<open>typeof\<close> test) throws.
\<close>

definition rebuild_user :: "jsval \<Rightarrow> js_error + jsval" where
  "rebuild_user user =
     (if user = JNull then Inl TypeError
      else Inr (JObj
        [(''name'', or_else (prop_get user ''name'') (JStr ''User'')),
         (''level'', or_else (prop_get user ''level'') (JNum 0)),
         (''picture'', or_else (prop_get user ''picture'') JNull),
         (''expositors'',
            (case prop_get user ''expositors'' of
               Some (JArr xs ps) \<Rightarrow> JArr xs ps
             | _ \<Rightarrow> JArr [] []))]))"

text \<open>
  Source lines 74-82: the \<^verbatim>\<open>for ... in\<close> loop over the saved table.  The keys of an
  array are its indices (in decimal) followed by its named properties.  The guard calls
  \<^verbatim>\<open>parsedData.extractionPaths.hasOwnProperty\<close>: when the saved table has an own
  property of that name, the value found is not callable and the first iteration throws.
\<close>

fun show_nat :: "nat \<Rightarrow> string" where
  "show_nat n =
     (if n < 10 then [''0123456789'' ! n]
      else show_nat (n div 10) @ [''0123456789'' ! (n mod 10)])"

declare show_nat.simps [simp del]

definition own_entries :: "jsval \<Rightarrow> (string \<times> jsval) list" where
  "own_entries v =
     (case v of
        JObj ps \<Rightarrow> ps
      | JArr xs ps \<Rightarrow> zip (map show_nat [0..<length xs]) xs @ ps
      | _ \<Rightarrow> [])"

definition merge_paths :: "jsval \<Rightarrow> (string \<times> jsval) list \<Rightarrow> js_error + (string \<times> jsval) list" where
  "merge_paths saved table =
     (let entries = own_entries saved in
      if entries \<noteq> [] \<and> map_of (props saved) ''hasOwnProperty'' \<noteq> None then Inl TypeError
      else Inr (foldl (\<lambda>t gameId. case map_of entries gameId of
                                     Some v \<Rightarrow> AList.update gameId v t
                                   | None \<Rightarrow> t)
                 table (map fst entries)))"

text \<open>Source line 57: the structural validation of the parsed value.\<close>

definition structure_ok :: "jsval \<Rightarrow> bool" where
  "structure_ok parsedData =
     (truthy (Some parsedData) \<and> typeof_object (Some parsedData) \<and>
      isArray (prop_get parsedData ''library'') \<and>
      typeof_object (prop_get parsedData ''user''))"

definition load_extraction_paths ::
  "jsval \<Rightarrow> (string \<times> jsval) list \<Rightarrow> js_error + (string \<times> jsval) list" where
  "load_extraction_paths parsedData table =
     (case prop_get parsedData ''extractionPaths'' of
        None \<Rightarrow> Inr table
      | Some saved \<Rightarrow>
          if truthy (Some saved) \<and> typeof_object (Some saved)
          then merge_paths saved table
          else Inr table)"

text \<open>
  Source lines 60-82 on a validated value: back-fill, rebuild the user, merge the saved
  table into \<^verbatim>\<open>extractionPaths\<close>.  The result is the mutated \<^verbatim>\<open>parsedData\<close>, its
  library and the new table.  Every throw of this block happens before the first
  \<^verbatim>\<open>extractionPaths.set\<close>.
\<close>

definition normalize_parsed ::
  "jsval \<Rightarrow> (string \<times> jsval) list \<Rightarrow> js_error + (jsval \<times> jsval \<times> (string \<times> jsval) list)" where
  "normalize_parsed parsedData table =
     (case (prop_get parsedData ''library'', prop_get parsedData ''user'') of
        (Some (JArr games lps), Some user) \<Rightarrow>
          and_then (backfill_playtime games) (\<lambda>games'.
          and_then (assign parsedData ''library'' (JArr games' lps)) (\<lambda>d1.
          and_then (rebuild_user user) (\<lambda>user'.
          and_then (assign d1 ''user'' user') (\<lambda>d2.
          and_then (load_extraction_paths d2 table) (\<lambda>table'.
          Inr (d2, JArr games' lps, table'))))))
      | _ \<Rightarrow> Inl TypeError)"

definition load_validated :: "jsval \<Rightarrow> main_state \<Rightarrow> main_state \<times> (js_error + jsval)" where
  "load_validated parsedData st =
     (case normalize_parsed parsedData (extractionPaths st) of
        Inl e \<Rightarrow> (st, Inl e)
      | Inr (profile, library, table') \<Rightarrow>
          (broadcast (ProfileLoaded library) (st\<lparr> extractionPaths := table' \<rparr>), Inr profile))"

text \<open>Source lines 43-93, the body of the \<^verbatim>\<open>try\<close> block of \<^verbatim>\<open>loadProfile\<close>.\<close>

definition loadProfile_try :: "main_state \<Rightarrow> main_state \<times> (js_error + jsval)" where
  "loadProfile_try st =
     (case user_data_file st of
        NoFile \<Rightarrow> (st, Inr defaultProfile)
      | ReadFails \<Rightarrow> (st, Inl IOError)
      | Blank \<Rightarrow> (st, Inr defaultProfile)
      | Unparsable \<Rightarrow> (st, Inl SyntaxError)
      | JsonText parsedData \<Rightarrow>
          if structure_ok parsedData then load_validated parsedData st
          else (st, Inr defaultProfile))"

text \<open>Source lines 41-98: the \<^verbatim>\<open>catch\<close> turns every throw into the default profile.\<close>

definition loadProfile :: "main_state \<Rightarrow> main_state \<times> jsval" where
  "loadProfile st =
     (case loadProfile_try st of
        (st', Inr profile) \<Rightarrow> (st', profile)
      | (st', Inl error) \<Rightarrow> (st', defaultProfile))"

text \<open>
  Source lines 27-38.  The flag says whether \<^verbatim>\<open>writeFileSync\<close> throws; the
  \<^verbatim>\<open>catch\<close> swallows that and the \<^verbatim>\<open>TypeError\<close> of assigning to a value that is
  not an object.
\<close>

definition saveProfile :: "bool \<Rightarrow> jsval \<Rightarrow> main_state \<Rightarrow> main_state" where
  "saveProfile write_fails profileData st =
     (case assign profileData ''extractionPaths'' (JObj (extractionPaths st)) of
        Inl e \<Rightarrow> st
      | Inr data \<Rightarrow>
          if write_fails then st
          else st\<lparr> user_data_file := JsonText (stringify data) \<rparr>)"

section \<open>Extraction progress: the stdout handler of handleExtraction\<close>

text \<open>
  Source lines 291-307.  The handler receives one chunk of the decoder's standard
  output, searches it with the regular expression \<^verbatim>\<open>/(\d{1,3})%/\<close>, parses the captured
  digits with \<^verbatim>\<open>parseInt(_, 10)\<close> and compares the number with the closure variable
  \<^verbatim>\<open>lastPercentage\<close>, which starts at 0.
\<close>

definition is_digit :: "char \<Rightarrow> bool" where
  "is_digit c = (c \<in> set ''0123456789'')"

text \<open>
  \<^verbatim>\<open>\d{1,3}\<close> is greedy: at a fixed start position the matcher first tries three
  digits followed by the percent sign, then two, then one.
\<close>

fun match_at :: "string \<Rightarrow> nat \<Rightarrow> string option" where
  "match_at s 0 = None"
| "match_at s (Suc k) =
     (if Suc k < length s \<and> list_all is_digit (take (Suc k) s) \<and> s ! Suc k = CHR ''%''
      then Some (take (Suc k) s)
      else match_at s k)"

text \<open>\<^verbatim>\<open>String.prototype.match\<close> without the global flag: the leftmost match.\<close>

fun regex_match :: "string \<Rightarrow> string option" where
  "regex_match [] = None"
| "regex_match (c # cs) =
     (case match_at (c # cs) 3 of
        Some d \<Rightarrow> Some d
      | None \<Rightarrow> regex_match cs)"

text \<open>The value of a decimal digit is its position in the string of the ten digits.\<close>

definition digit_val :: "char \<Rightarrow> nat" where
  "digit_val c = length (takeWhile (\<lambda>d. d \<noteq> c) ''0123456789'')"

text \<open>\<^verbatim>\<open>parseInt(d, 10)\<close> on a string of one to three decimal digits.\<close>

definition parseInt :: "string \<Rightarrow> nat" where
  "parseInt d = foldl (\<lambda>a c. 10 * a + digit_val c) 0 d"

text \<open>
  The state of one extraction run as far as the handler is concerned: the closure
  variable \<^verbatim>\<open>lastPercentage\<close> and the events delivered so far.  The flag
  \<open>destroyed\<close> is the value of \<^verbatim>\<open>event.sender.isDestroyed()\<close> at the time of the
  chunk.
\<close>

record extraction_session =
  lastPercentage :: nat
  delivered :: "event list"

definition on_stdout_data :: "string \<Rightarrow> string \<times> bool \<Rightarrow> extraction_session \<Rightarrow> extraction_session" where
  "on_stdout_data gameId chunk s =
     (case regex_match (fst chunk) of
        None \<Rightarrow> s
      | Some d \<Rightarrow>
          if d = [] then s
          else
            let percentage = parseInt d in
            if percentage \<ge> lastPercentage s
            then s\<lparr> delivered :=
                      delivered s @ (if \<not> snd chunk then [DecompressionProgress gameId percentage] else []),
                    lastPercentage := percentage \<rparr>
            else s)"

definition new_session :: extraction_session where
  "new_session = \<lparr> lastPercentage = 0, delivered = [] \<rparr>"

definition stdout_run :: "string \<Rightarrow> (string \<times> bool) list \<Rightarrow> extraction_session \<Rightarrow> extraction_session" where
  "stdout_run gameId chunks s = foldl (\<lambda>s chunk. on_stdout_data gameId chunk s) s chunks"

section \<open>The executable locator\<close>

text \<open>
  A directory entry as \<^verbatim>\<open>readdirSync(dir, { withFileTypes: true })\<close> reports it: a
  regular file, a directory together with its own listing (\<open>None\<close> when reading it
  throws), or an entry that is neither (a symbolic link, a socket).
\<close>

datatype dirent =
    FileEnt string
  | OtherEnt string
  | DirEnt string "dirent list option"

text \<open>\<^verbatim>\<open>String.prototype.toLowerCase\<close> on ASCII text.\<close>

definition toLowerCase :: "string \<Rightarrow> string" where
  "toLowerCase s =
     map (\<lambda>c. case map_of (zip ''ABCDEFGHIJKLMNOPQRSTUVWXYZ'' ''abcdefghijklmnopqrstuvwxyz'') c of
                 None \<Rightarrow> c | Some l \<Rightarrow> l) s"

text \<open>
  \<^verbatim>\<open>path.join(directory, name)\<close> for a directory path and an entry name.  The result
  is never empty, so the test \<^verbatim>\<open>if (execFile)\<close> of the source is the test for
  \<open>Some\<close>.
\<close>

definition path_join :: "string \<Rightarrow> string \<Rightarrow> string" where
  "path_join directory name = directory @ ''/'' @ name"

text \<open>Source lines 363-369: the first loop, over the files of the directory itself.\<close>

fun firstDirect :: "string \<Rightarrow> dirent list \<Rightarrow> string \<Rightarrow> string option" where
  "firstDirect directory [] targetExe = None"
| "firstDirect directory (FileEnt name # rest) targetExe =
     (if toLowerCase name = toLowerCase targetExe then Some (path_join directory name)
      else firstDirect directory rest targetExe)"
| "firstDirect directory (e # rest) targetExe = firstDirect directory rest targetExe"

text \<open>
  Source lines 358-384.  \<open>searchSubdirs\<close> is the second loop (lines 372-378); a
  listing of \<open>None\<close> is the \<^verbatim>\<open>catch\<close> branch, which returns \<^verbatim>\<open>null\<close>.
\<close>

fun findExecutable :: "string \<Rightarrow> dirent list option \<Rightarrow> string \<Rightarrow> string option"
and searchSubdirs :: "string \<Rightarrow> dirent list \<Rightarrow> string \<Rightarrow> string option" where
  "findExecutable directory None targetExe = None"
| "findExecutable directory (Some files) targetExe =
     (case firstDirect directory files targetExe of
        Some filePath \<Rightarrow> Some filePath
      | None \<Rightarrow> searchSubdirs directory files targetExe)"
| "searchSubdirs directory [] targetExe = None"
| "searchSubdirs directory (DirEnt name sub # rest) targetExe =
     (case findExecutable (path_join directory name) sub targetExe of
        Some execFile \<Rightarrow> Some execFile
      | None \<Rightarrow> searchSubdirs directory rest targetExe)"
| "searchSubdirs directory (FileEnt name # rest) targetExe =
     searchSubdirs directory rest targetExe"
| "searchSubdirs directory (OtherEnt name # rest) targetExe =
     searchSubdirs directory rest targetExe"

section \<open>Archive extraction\<close>

text \<open>
  The terminal outcomes of \<^verbatim>\<open>handleExtraction\<close> (source lines 267-355).  Each
  constructor stands for one \<^verbatim>\<open>reject(new Error(...))\<close> of the source; a message
  that the source takes from a caught error is carried as text.
\<close>

datatype extraction_failure =
    NoRarFile
  | PreparationFailed string
  | SevenZipFailed "int option"
  | NoFilesAfterExtraction
  | TargetNotFound
  | SpawnFailed string
  | VerificationFailed string

text \<open>
  What the decoder subprocess does: it fails to start (the \<^verbatim>\<open>error\<close> event), or it
  writes chunks to its standard output and closes with an exit code (\<open>None\<close>, the
  \<^verbatim>\<open>null\<close> of a process ended by a signal).  Each chunk comes with the value of
  \<^verbatim>\<open>event.sender.isDestroyed()\<close> at its arrival.
\<close>

datatype decoder_outcome =
    SpawnError string
  | Closed "(string \<times> bool) list" "int option"

text \<open>
  Everything \<^verbatim>\<open>handleExtraction\<close> reads from its surroundings: the listing of the
  download directory (left when \<^verbatim>\<open>readdir\<close> throws), whether the output directory
  exists and whether creating it fails, whether the renderer is already gone when the
  start event is sent (\<^verbatim>\<open>send\<close> on a destroyed sender throws), the decoder, the
  output directory after the decoder has closed, and the renderer at the end.
\<close>

record extraction_env =
  download_listing :: "string + string list"
  extraction_dir_exists :: bool
  mkdir_error :: "string option"
  destroyed_at_start :: bool
  decoder :: decoder_outcome
  extracted_listing :: "string + dirent list"
  destroyed_at_end :: bool

text \<open>\<^verbatim>\<open>String.prototype.endsWith\<close>.\<close>

definition endsWith :: "string \<Rightarrow> string \<Rightarrow> bool" where
  "endsWith s suffix =
     (length suffix \<le> length s \<and> drop (length s - length suffix) s = suffix)"

text \<open>\<^verbatim>\<open>event.sender.send\<close>: one event to the renderer that made the request.\<close>

definition send :: "event \<Rightarrow> main_state \<Rightarrow> main_state" where
  "send e st = st\<lparr> outbox := outbox st @ [e] \<rparr>"

text \<open>Source lines 314-343: the \<^verbatim>\<open>close\<close> handler of the decoder.\<close>

definition on_close ::
  "extraction_env \<Rightarrow> string \<Rightarrow> string \<Rightarrow> int option \<Rightarrow> main_state \<Rightarrow>
     main_state \<times> (extraction_failure + unit)" where
  "on_close env extractionDir gameId code st =
     (if code \<noteq> Some 0 then (st, Inl (SevenZipFailed code))
      else
        case extracted_listing env of
          Inl message \<Rightarrow> (st, Inl (VerificationFailed message))
        | Inr extractedFiles \<Rightarrow>
            if length extractedFiles = 0 then (st, Inl NoFilesAfterExtraction)
            else
              case findExecutable extractionDir (Some extractedFiles) ''Terraria.exe'' of
                None \<Rightarrow> (st, Inl TargetNotFound)
              | Some execFile \<Rightarrow>
                  let st1 = st\<lparr> extractionPaths :=
                              AList.update gameId
                                (JObj [(''path'', JStr extractionDir), (''execTarget'', JStr execFile)])
                                (extractionPaths st) \<rparr>;
                      st2 = (if \<not> destroyed_at_end env
                             then send (DecompressionComplete gameId) st1 else st1)
                  in (st2, Inr ()))"

text \<open>
  Source lines 267-355.  The result is the settlement of the promise: \<open>Inr ()\<close> for
  \<^verbatim>\<open>resolve()\<close>, \<open>Inl\<close> for the first \<^verbatim>\<open>reject\<close>.
\<close>

definition handleExtraction ::
  "extraction_env \<Rightarrow> string \<Rightarrow> string \<Rightarrow> main_state \<Rightarrow>
     main_state \<times> (extraction_failure + unit)" where
  "handleExtraction env downloadPath gameId st =
     (case download_listing env of
        Inl message \<Rightarrow> (st, Inl (PreparationFailed message))
      | Inr files \<Rightarrow>
          case find (\<lambda>file. endsWith file ''.rar'') files of
            None \<Rightarrow> (st, Inl NoRarFile)
          | Some rarFile \<Rightarrow>
              let extractionDir = path_join downloadPath ''extracted'' in
              case (if \<not> extraction_dir_exists env then mkdir_error env else None) of
                Some message \<Rightarrow> (st, Inl (PreparationFailed message))
              | None \<Rightarrow>
                  if destroyed_at_start env
                  then (st, Inl (PreparationFailed ''Object has been destroyed''))
                  else
                    let st1 = send (DecompressionStart gameId) st in
                    case decoder env of
                      SpawnError message \<Rightarrow> (st1, Inl (SpawnFailed message))
                    | Closed chunks code \<Rightarrow>
                        let session = stdout_run gameId chunks new_session;
                            st2 = st1\<lparr> outbox := outbox st1 @ delivered session \<rparr>
                        in on_close env extractionDir gameId code st2)"

section \<open>Launching an installed game\<close>

text \<open>
  The operator \<^verbatim>\<open>+\<close> with a number on the right, as line 417 uses it: numeric
  addition when the left operand is a number, a boolean or \<^verbatim>\<open>null\<close>, string
  concatenation otherwise (an array is joined with commas, an object prints as
  \<^verbatim>\<open>[object Object]\<close>).  The sum of the model is the integer sum, which is the sum
  that JavaScript computes as long as the operands and the result are at most
  \<open>2\<^sup>5\<^sup>3 - 1\<close> in absolute value.
\<close>

definition show_int :: "int \<Rightarrow> string" where
  "show_int n = (if n < 0 then ''-'' @ show_nat (nat (- n)) else show_nat (nat n))"

fun js_to_string :: "jsval \<Rightarrow> string"
and js_join :: "jsval list \<Rightarrow> string" where
  "js_to_string JNull = ''null''"
| "js_to_string (JBool b) = (if b then ''true'' else ''false'')"
| "js_to_string (JNum n) = show_int n"
| "js_to_string (JStr s) = s"
| "js_to_string (JArr xs ps) = js_join xs"
| "js_to_string (JObj ps) = ''[object Object]''"
| "js_join [] = []"
| "js_join (x # xs) =
     (if x = JNull then [] else js_to_string x) @ (if xs = [] then [] else '','' @ js_join xs)"

definition js_add :: "jsval \<Rightarrow> int \<Rightarrow> jsval" where
  "js_add a n =
     (case a of
        JNum m \<Rightarrow> JNum (m + n)
      | JBool b \<Rightarrow> JNum ((if b then 1 else 0) + n)
      | JNull \<Rightarrow> JNum n
      | _ \<Rightarrow> JStr (js_to_string a @ show_int n))"

text \<open>
  The replies of the \<^verbatim>\<open>launch-game\<close> handler (source lines 386-444):
  \<^verbatim>\<open>{ success: true, ... }\<close>, or \<^verbatim>\<open>{ success: false, message }\<close> with one of the
  three messages of the source.
\<close>

datatype launch_failure = GameExecutableNotFound | LaunchError js_error | LaunchFailed string

datatype reply = Success | Failed launch_failure

text \<open>
  What one launch reads from its surroundings: \<^verbatim>\<open>Date.now()\<close> before the process
  starts and when the callback of \<^verbatim>\<open>execFile\<close> runs (milliseconds), the error
  passed to that callback (its message; \<open>None\<close> for a clean exit), and whether the
  write of the profile file fails.
\<close>

record launch_env =
  startTime :: int
  endTime :: int
  exit_error :: "string option"
  write_fails :: bool

text \<open>
  Source lines 406-407: \<^verbatim>\<open>Math.round((endTime - startTime) / 1000)\<close>, which rounds
  halves upwards.
\<close>

definition playtimeSec :: "launch_env \<Rightarrow> int" where
  "playtimeSec env = (endTime env - startTime env + 500) div 1000"

text \<open>
  Source line 415: \<^verbatim>\<open>library.findIndex(game => game.id === gameId)\<close>.  Reading
  \<^verbatim>\<open>id\<close> of a \<^verbatim>\<open>null\<close> record throws.
\<close>

fun findIndex_id :: "string \<Rightarrow> jsval list \<Rightarrow> js_error + nat option" where
  "findIndex_id gameId [] = Inr None"
| "findIndex_id gameId (game # rest) =
     (if game = JNull then Inl TypeError
      else if prop_get game ''id'' = Some (JStr gameId) then Inr (Some 0)
      else case findIndex_id gameId rest of
             Inl e \<Rightarrow> Inl e
           | Inr None \<Rightarrow> Inr None
           | Inr (Some i) \<Rightarrow> Inr (Some (Suc i)))"

text \<open>Source line 417: the assignment to the playtime of the record found.\<close>

definition add_playtime :: "jsval \<Rightarrow> jsval list \<Rightarrow> (string \<times> jsval) list \<Rightarrow> nat \<Rightarrow> int \<Rightarrow> js_error + jsval" where
  "add_playtime profileData games lps gameIndex seconds =
     and_then (assign (games ! gameIndex) ''playtime''
                 (js_add (or_else (prop_get (games ! gameIndex) ''playtime'') (JNum 0)) seconds))
       (\<lambda>game'. assign profileData ''library'' (JArr (games[gameIndex := game']) lps))"

text \<open>
  How a call of \<^verbatim>\<open>launch-game\<close> can end without a reply: the promise returned to
  the renderer is rejected with an error, or an exception escapes the callback of
  \<^verbatim>\<open>execFile\<close> and the promise is never settled.
\<close>

datatype launch_abort = Rejected js_error | Unsettled js_error

text \<open>
  Source lines 404-438: the callback of \<^verbatim>\<open>execFile\<close>.  \<open>Inr\<close> is the value the
  promise is resolved with.
\<close>

definition on_exit :: "string \<Rightarrow> launch_env \<Rightarrow> main_state \<Rightarrow> main_state \<times> (launch_abort + reply)" where
  "on_exit gameId env st =
     (case loadProfile st of
        (st1, profileData) \<Rightarrow>
          (case prop_get profileData ''library'' of
             Some (JArr games lps) \<Rightarrow>
               (case and_then (findIndex_id gameId games)
                       (\<lambda>gameIndex. case gameIndex of
                            Some i \<Rightarrow> add_playtime profileData games lps i (playtimeSec env)
                          | None \<Rightarrow> Inr profileData) of
                  Inl e \<Rightarrow> (st1, Inl (Unsettled e))
                | Inr profileData' \<Rightarrow>
                    let st2 = saveProfile (write_fails env) profileData' st1 in
                    (case exit_error env of
                       Some message \<Rightarrow> (st2, Inr (Failed (LaunchFailed message)))
                     | None \<Rightarrow> (broadcast (UpdatePlaytime gameId) st2, Inr Success)))
           | _ \<Rightarrow> (st1, Inl (Unsettled TypeError))))"

text \<open>
  Source line 399, \<^verbatim>\<open>path.basename\<close> on a POSIX path (the separator of
  \<open>path_join\<close>): trailing separators are dropped and the text after the last
  remaining separator is returned.  It is empty when the path is empty or consists of
  separators only.
\<close>

definition basename :: "string \<Rightarrow> string" where
  "basename p =
     rev (takeWhile (\<lambda>c. c \<noteq> CHR ''/'') (dropWhile (\<lambda>c. c = CHR ''/'') (rev p)))"

text \<open>
  Source line 404: \<^verbatim>\<open>execFile(execName, [], { cwd: execDir }, callback)\<close> validates
  its arguments before it starts anything and throws an \<^verbatim>\<open>ERR_INVALID_ARG_VALUE\<close>
  (a \<^verbatim>\<open>TypeError\<close>) when the file name is empty or when the file name or the working
  directory contains a NUL character.  Every character of the target other than a
  separator is in its base name or in its directory name, so the second test is made on
  the target.
\<close>

definition execFile_throws :: "string \<Rightarrow> bool" where
  "execFile_throws target = (basename target = [] \<or> CHR 0x00 \<in> set target)"

text \<open>
  Source lines 386-444.  Only a string can be a key of \<^verbatim>\<open>extractionPaths\<close>;
  \<^verbatim>\<open>path.dirname\<close> throws a \<^verbatim>\<open>TypeError\<close> on a target that is not a string, which
  the outer \<^verbatim>\<open>catch\<close> reports.  A throw of \<^verbatim>\<open>execFile\<close> happens inside the
  executor of the promise that the handler returns without awaiting it: the promise is
  rejected, the callback never runs and nothing is loaded or saved.  Otherwise a process
  is started (or fails to start), and its end invokes the callback.
\<close>

definition launch_game :: "jsval \<Rightarrow> launch_env \<Rightarrow> main_state \<Rightarrow> main_state \<times> (launch_abort + reply)" where
  "launch_game gameId env st =
     (case gameId of
        JStr g \<Rightarrow>
          (case map_of (extractionPaths st) g of
             None \<Rightarrow> (st, Inr (Failed GameExecutableNotFound))
           | Some gameData \<Rightarrow>
               if \<not> truthy (Some gameData) then (st, Inr (Failed GameExecutableNotFound))
               else if \<not> truthy (prop_get gameData ''execTarget'')
               then (st, Inr (Failed GameExecutableNotFound))
               else
                 (case prop_get gameData ''execTarget'' of
                    Some (JStr target) \<Rightarrow>
                      if execFile_throws target then (st, Inl (Rejected TypeError))
                      else on_exit g env st
                  | _ \<Rightarrow> (st, Inr (Failed (LaunchError TypeError)))))
      | _ \<Rightarrow> (st, Inr (Failed GameExecutableNotFound)))"

section \<open>The download handler\<close>

text \<open>The message of the \<^verbatim>\<open>Error\<close> that \<^verbatim>\<open>handleExtraction\<close> rejects with.\<close>

definition failure_message :: "extraction_failure \<Rightarrow> string" where
  "failure_message failure =
     (case failure of
        NoRarFile \<Rightarrow> ''No .rar file found in the download directory''
      | PreparationFailed message \<Rightarrow> ''Extraction preparation failed: '' @ message
      | SevenZipFailed code \<Rightarrow>
          ''7-Zip extraction failed with code '' @
            (case code of None \<Rightarrow> ''null'' | Some n \<Rightarrow> show_int n)
      | NoFilesAfterExtraction \<Rightarrow> ''No files found after extraction''
      | TargetNotFound \<Rightarrow> ''Target executable not found in extracted files''
      | SpawnFailed message \<Rightarrow> ''Failed to start 7-Zip process: '' @ message
      | VerificationFailed message \<Rightarrow> message)"

text \<open>
  The reply object \<^verbatim>\<open>{ success, message }\<close> of \<^verbatim>\<open>start-torrent-download\<close>, and the
  state of one call: the promise the handler returns (\<open>None\<close> while it is pending)
  and the exceptions that escaped an event handler.
\<close>

datatype download_reply = DownloadReply bool string

record download_call =
  promise :: "download_reply option"
  uncaught :: "js_error list"

definition new_call :: download_call where
  "new_call = \<lparr> promise = None, uncaught = [] \<rparr>"

text \<open>
  Source line 211: \<^verbatim>\<open>new Promise((resolve) => { ... })\<close>.  The executor binds
  \<^verbatim>\<open>resolve\<close> only.  No enclosing scope declares \<^verbatim>\<open>reject\<close>, so the calls
  \<^verbatim>\<open>reject(...)\<close> on lines 241, 255 and 262 throw a \<^verbatim>\<open>ReferenceError\<close> when the
  identifier is evaluated, and the promise is left as it was.
\<close>

definition resolve :: "download_reply \<Rightarrow> download_call \<Rightarrow> download_call" where
  "resolve r c = (case promise c of None \<Rightarrow> c\<lparr> promise := Some r \<rparr> | Some r' \<Rightarrow> c)"

definition reject :: "download_reply \<Rightarrow> download_call \<Rightarrow> download_call" where
  "reject r c = c\<lparr> uncaught := uncaught c @ [ReferenceError ''reject''] \<rparr>"

text \<open>
  The events of the transfer engine: a \<^verbatim>\<open>download\<close> tick (with
  \<^verbatim>\<open>event.sender.isDestroyed()\<close> and the formatted statistics), \<^verbatim>\<open>done\<close> (with the
  error that \<^verbatim>\<open>client.remove\<close> passes to its callback, the surroundings of the
  extraction that follows, and whether the renderer is gone when a failure is
  reported), and \<^verbatim>\<open>error\<close> with its message.
\<close>

datatype torrent_event =
    Download bool string
  | Done "string option" extraction_env bool
  | TorrentError string

text \<open>Source lines 215-263: the three event handlers.\<close>

definition on_torrent_event ::
  "string \<Rightarrow> string \<Rightarrow> torrent_event \<Rightarrow> main_state \<times> download_call \<Rightarrow> main_state \<times> download_call" where
  "on_torrent_event downloadPath gameId e s =
     (case s of (st, c) \<Rightarrow>
        (case e of
           Download destroyed stats \<Rightarrow>
             if destroyed then (st, c) else (send (TorrentProgress stats) st, c)
         | Done err env destroyed \<Rightarrow>
             (case err of
                Some message \<Rightarrow> (st, reject (DownloadReply False ''Failed to stop torrent'') c)
              | None \<Rightarrow>
                  (case handleExtraction env downloadPath gameId st of
                     (st', Inr u) \<Rightarrow>
                       (st', resolve (DownloadReply True ''Download and extraction completed'') c)
                   | (st', Inl failure) \<Rightarrow>
                       if destroyed then (st', c\<lparr> uncaught := uncaught c @ [TypeError] \<rparr>)
                       else
                         (send (DecompressionError gameId
                                  (if failure_message failure = [] then ''Extraction failed''
                                   else failure_message failure)) st',
                          reject (DownloadReply False ''Extraction failed'') c)))
         | TorrentError message \<Rightarrow> (st, reject (DownloadReply False message) c)))"

text \<open>
  Source lines 203-265.  An id that is falsy or not a string is refused at once;
  otherwise the handlers run on the events of the transfer.
\<close>

definition start_torrent_download ::
  "string \<Rightarrow> jsval \<Rightarrow> torrent_event list \<Rightarrow> main_state \<Rightarrow> main_state \<times> download_call" where
  "start_torrent_download downloads gameId events st =
     (case gameId of
        JStr g \<Rightarrow>
          if g = [] then (st, resolve (DownloadReply False ''Invalid gameId'') new_call)
          else foldl (\<lambda>s e. on_torrent_event (path_join downloads g) g e s) (st, new_call) events
      | _ \<Rightarrow> (st, resolve (DownloadReply False ''Invalid gameId'') new_call))"

section \<open>Notions used to state the properties\<close>

text \<open>The percentages carried by the progress events of an event log, in order.\<close>

fun progress_values :: "event list \<Rightarrow> nat list" where
  "progress_values [] = []"
| "progress_values (DecompressionProgress g p # es) = p # progress_values es"
| "progress_values (e # es) = progress_values es"

definition session_inv :: "extraction_session \<Rightarrow> bool" where
  "session_inv s =
     (sorted (progress_values (delivered s)) \<and>
      list_all (\<lambda>p. p \<le> lastPercentage s) (progress_values (delivered s)))"

text \<open>
  Every file of a readable tree whose name equals the target up to case, with its depth
  below the listing searched (0 for an entry of the listing itself) and its path.
\<close>

fun all_matches :: "nat \<Rightarrow> string \<Rightarrow> dirent list \<Rightarrow> string \<Rightarrow> (nat \<times> string) list" where
  "all_matches d directory [] targetExe = []"
| "all_matches d directory (FileEnt name # rest) targetExe =
     (if toLowerCase name = toLowerCase targetExe then [(d, path_join directory name)] else [])
       @ all_matches d directory rest targetExe"
| "all_matches d directory (DirEnt name (Some sub) # rest) targetExe =
     all_matches (Suc d) (path_join directory name) sub targetExe
       @ all_matches d directory rest targetExe"
| "all_matches d directory (e # rest) targetExe = all_matches d directory rest targetExe"

text \<open>
  The matches of a readable tree in the order of the two-phase search: the matching
  files of the directory itself, in listing order; then, for each subdirectory in
  listing order, the matches of that subdirectory in the same order.
\<close>

fun direct_matches :: "string \<Rightarrow> dirent list \<Rightarrow> string \<Rightarrow> string list" where
  "direct_matches directory [] targetExe = []"
| "direct_matches directory (FileEnt name # rest) targetExe =
     (if toLowerCase name = toLowerCase targetExe then [path_join directory name] else [])
       @ direct_matches directory rest targetExe"
| "direct_matches directory (OtherEnt name # rest) targetExe =
     direct_matches directory rest targetExe"
| "direct_matches directory (DirEnt name sub # rest) targetExe =
     direct_matches directory rest targetExe"

fun search_order :: "string \<Rightarrow> dirent list \<Rightarrow> string \<Rightarrow> string list"
and subdir_order :: "string \<Rightarrow> dirent list \<Rightarrow> string \<Rightarrow> string list" where
  "search_order directory files targetExe =
     direct_matches directory files targetExe @ subdir_order directory files targetExe"
| "subdir_order directory [] targetExe = []"
| "subdir_order directory (DirEnt name (Some sub) # rest) targetExe =
     search_order (path_join directory name) sub targetExe
       @ subdir_order directory rest targetExe"
| "subdir_order directory (DirEnt name None # rest) targetExe =
     subdir_order directory rest targetExe"
| "subdir_order directory (FileEnt name # rest) targetExe =
     subdir_order directory rest targetExe"
| "subdir_order directory (OtherEnt name # rest) targetExe =
     subdir_order directory rest targetExe"

text \<open>
  The locator claim as the specification words it: the path returned is a match of
  minimal depth, and nothing is returned only when the tree has no match.
\<close>

definition shallowest_match_returned :: "string \<Rightarrow> dirent list \<Rightarrow> string \<Rightarrow> bool" where
  "shallowest_match_returned root files targetName =
     (let ms = all_matches 0 root files targetName in
      case findExecutable root (Some files) targetName of
        None \<Rightarrow> ms = []
      | Some p \<Rightarrow> list_ex (\<lambda>m. snd m = p \<and> list_all (\<lambda>m'. fst m \<le> fst m') ms) ms)"

text \<open>Three sample trees.\<close>

definition tree1 :: "dirent list" where
  "tree1 = [DirEnt ''a'' (Some [DirEnt ''b'' (Some [FileEnt ''Terraria.exe''])]),
            DirEnt ''c'' (Some [FileEnt ''terraria.EXE''])]"

definition tree2 :: "dirent list" where
  "tree2 = [DirEnt ''a'' (Some [FileEnt ''Terraria.exe'']), FileEnt ''TERRARIA.EXE'']"

definition tree3 :: "dirent list" where
  "tree3 = [DirEnt ''a'' (Some [OtherEnt ''link'', FileEnt ''Terraria.exe'']),
            DirEnt ''b'' (Some [FileEnt ''Terraria.exe''])]"

text \<open>A value that is an object in the sense of the language: not \<^verbatim>\<open>null\<close>, not a primitive.\<close>

fun is_object :: "jsval option \<Rightarrow> bool" where
  "is_object (Some (JArr xs ps)) = True"
| "is_object (Some (JObj ps)) = True"
| "is_object v = False"

text \<open>The item ids that appear in the installed-path table of the persisted file.\<close>

definition persisted_path_keys :: "file_content \<Rightarrow> string list" where
  "persisted_path_keys f =
     (case f of
        JsonText v \<Rightarrow>
          (case prop_get v ''extractionPaths'' of
             Some saved \<Rightarrow> map fst (own_entries saved)
           | None \<Rightarrow> [])
      | _ \<Rightarrow> [])"

text \<open>
  What back-filling a library record and filling the defaults of the user mean, read
  property by property.
\<close>

definition backfilled_game :: "jsval \<Rightarrow> jsval \<Rightarrow> bool" where
  "backfilled_game g g' =
     (prop_get g' ''playtime'' \<noteq> None \<and>
      (prop_get g ''playtime'' = None \<longrightarrow> prop_get g' ''playtime'' = Some (JNum 0)) \<and>
      (truthy (prop_get g ''playtime'') \<longrightarrow> prop_get g' ''playtime'' = prop_get g ''playtime'') \<and>
      (\<forall>k. k \<noteq> ''playtime'' \<longrightarrow> prop_get g' k = prop_get g k))"

definition user_defaults_filled :: "jsval \<Rightarrow> jsval \<Rightarrow> bool" where
  "user_defaults_filled user user' =
     ((prop_get user ''name'' = None \<longrightarrow> prop_get user' ''name'' = Some (JStr ''User'')) \<and>
      (prop_get user ''level'' = None \<longrightarrow> prop_get user' ''level'' = Some (JNum 0)) \<and>
      (prop_get user ''picture'' = None \<longrightarrow> prop_get user' ''picture'' = Some JNull) \<and>
      (prop_get user ''expositors'' = None \<longrightarrow> prop_get user' ''expositors'' = Some (JArr [] [])) \<and>
      (truthy (prop_get user ''name'') \<longrightarrow> prop_get user' ''name'' = prop_get user ''name'') \<and>
      (truthy (prop_get user ''level'') \<longrightarrow> prop_get user' ''level'' = prop_get user ''level'') \<and>
      (truthy (prop_get user ''picture'') \<longrightarrow> prop_get user' ''picture'' = prop_get user ''picture'') \<and>
      (isArray (prop_get user ''expositors'') \<longrightarrow>
         prop_get user' ''expositors'' = prop_get user ''expositors''))"

text \<open>
  A parsed file on which the block of lines 60-82 runs to its end: an object whose
  library is an array of objects (arrays included), whose user is an object other than
  \<^verbatim>\<open>null\<close>, and whose installed-path table, when there is one, has no own property
  called \<^verbatim>\<open>hasOwnProperty\<close>.
\<close>

definition usable_profile :: "jsval \<Rightarrow> bool" where
  "usable_profile v =
     (is_object (Some v) \<and>
      (case prop_get v ''library'' of
         Some (JArr games lps) \<Rightarrow> list_all (\<lambda>game. is_object (Some game)) games
       | _ \<Rightarrow> False) \<and>
      is_object (prop_get v ''user'') \<and>
      (case prop_get v ''extractionPaths'' of
         None \<Rightarrow> True
       | Some saved \<Rightarrow> prop_get saved ''hasOwnProperty'' = None))"


text \<open>The entry that the installed-path table of the persisted file holds for a key.\<close>

definition persisted_path_entry :: "file_content \<Rightarrow> string \<Rightarrow> jsval option" where
  "persisted_path_entry f k =
     (case f of
        JsonText v \<Rightarrow>
          (case prop_get v ''extractionPaths'' of
             Some saved \<Rightarrow> map_of (own_entries saved) k
           | None \<Rightarrow> None)
      | _ \<Rightarrow> None)"

text \<open>Sample states of the profile store.\<close>

definition st_absent :: main_state where
  "st_absent = \<lparr> user_data_file = NoFile, extractionPaths = [], windows = 1, outbox = [] \<rparr>"



definition st0 :: main_state where
  "st0 = \<lparr> user_data_file = JsonText (JObj [(''library'', JArr [JObj [(''id'', JStr ''g1'')]] []),
               (''user'', JObj [(''name'', JStr ''Ann'')]),
               (''extractionPaths'', JObj [(''g1'', JObj [(''path'', JStr ''/d/g1/extracted''), (''execTarget'', JStr ''/d/g1/extracted/Terraria.exe'')])])]),
            extractionPaths = [(''g2'', JObj [(''path'', JStr ''/d/g2/extracted''), (''execTarget'', JStr ''/d/g2/extracted/Terraria.exe'')])],
            windows = 1, outbox = [] \<rparr>"

definition st_mixed_records :: main_state where
  "st_mixed_records = \<lparr> user_data_file =
        JsonText (JObj [(''library'', JArr [JNum 7, JObj [(''id'', JStr ''g1'')]] []),
                        (''user'', JObj [])]),
      extractionPaths = [], windows = 1, outbox = [] \<rparr>"


definition st_stale :: main_state where
  "st_stale = st0\<lparr> extractionPaths :=
      [(''g1'', JObj [(''path'', JStr ''/old/g1'')]),
       (''g2'', JObj [(''path'', JStr ''/d/g2/extracted''),
                     (''execTarget'', JStr ''/d/g2/extracted/Terraria.exe'')])] \<rparr>"

definition st_unsaved :: main_state where
  "st_unsaved = \<lparr> user_data_file =
        JsonText (JObj [(''library'', JArr [] []),
                        (''user'', JObj [(''name'', JStr ''Ann''), (''level'', JNum 1),
                                        (''picture'', JNull), (''expositors'', JArr [] [])]),
                        (''extractionPaths'', JObj [])]),
      extractionPaths = [(''g2'', JObj [(''path'', JStr ''/d/g2/extracted''),
                                       (''execTarget'', JStr ''/d/g2/extracted/Terraria.exe'')])],
      windows = 1, outbox = [] \<rparr>"

text \<open>Sample surroundings of an extraction.\<close>

definition env_ok :: extraction_env where
  "env_ok = \<lparr> download_listing = Inr [''readme.txt'', ''game.rar''],
      extraction_dir_exists = False, mkdir_error = None, destroyed_at_start = False,
      decoder = Closed [(''10%'', False), (''5%'', False), (''100%'', False)] (Some 0),
      extracted_listing = Inr [DirEnt ''Game'' (Some [FileEnt ''terraria.exe''])],
      destroyed_at_end = False \<rparr>"

definition env_empty_output :: extraction_env where
  "env_empty_output = env_ok\<lparr> extracted_listing := Inr [] \<rparr>"

text \<open>
  A value as \<^verbatim>\<open>JSON.parse\<close> returns it: no array carries a named property.
\<close>

fun props_free :: "jsval \<Rightarrow> bool" where
  "props_free (JArr xs ps) = (ps = [] \<and> (\<forall>x \<in> set xs. props_free x))"
| "props_free (JObj ps) = (\<forall>(k, x) \<in> set ps. props_free x)"
| "props_free v = True"


text \<open>Sample states and surroundings of a launch.\<close>

definition st_installed :: main_state where
  "st_installed = \<lparr> user_data_file =
        JsonText (JObj [(''library'', JArr [JObj [(''id'', JStr ''g0''), (''playtime'', JNum 3)],
                                            JObj [(''id'', JStr ''g1''), (''playtime'', JNum 5)]] []),
                        (''user'', JObj [(''name'', JStr ''Ann''), (''level'', JNum 1),
                                        (''picture'', JNull), (''expositors'', JArr [] [])]),
                        (''extractionPaths'', JObj [(''g1'', JObj [(''path'', JStr ''/d/g1/extracted''),
                                       (''execTarget'', JStr ''/d/g1/extracted/Terraria.exe'')])])]),
      extractionPaths = [(''g1'', JObj [(''path'', JStr ''/d/g1/extracted''),
                                       (''execTarget'', JStr ''/d/g1/extracted/Terraria.exe'')])],
      windows = 1, outbox = [] \<rparr>"

definition env_clean_exit :: launch_env where
  "env_clean_exit = \<lparr> startTime = 1000, endTime = 8400, exit_error = None, write_fails = False \<rparr>"

definition env_crash :: launch_env where
  "env_crash = \<lparr> startTime = 1000, endTime = 8400, exit_error = Some ''Command failed'', write_fails = False \<rparr>"


text \<open>The call has not been answered with a failure.\<close>

definition no_failure_reply :: "download_call \<Rightarrow> bool" where
  "no_failure_reply c =
     (case promise c of None \<Rightarrow> True | Some (DownloadReply success message) \<Rightarrow> success)"

text \<open>
  A well-formed persisted profile in the sense of the specification: a JSON object
  whose library is a sequence of record objects, whose user is an object, and whose
  installed-path table, when present, is an object keyed by item id (no item being
  called \<^verbatim>\<open>hasOwnProperty\<close>, the name that the guard of the merge loop looks up on
  the table itself).
\<close>

fun is_plain_object :: "jsval \<Rightarrow> bool" where
  "is_plain_object (JObj ps) = True"
| "is_plain_object v = False"

definition well_formed_profile :: "jsval \<Rightarrow> bool" where
  "well_formed_profile v =
     (props_free v \<and>
      (case prop_get v ''library'' of
         Some (JArr games lps) \<Rightarrow> list_all is_plain_object games
       | _ \<Rightarrow> False) \<and>
      (case prop_get v ''user'' of Some user \<Rightarrow> is_plain_object user | None \<Rightarrow> False) \<and>
      (case prop_get v ''extractionPaths'' of
         None \<Rightarrow> True
       | Some saved \<Rightarrow> is_plain_object saved \<and> prop_get saved ''hasOwnProperty'' = None))"

text \<open>
  The installed-path record that a file holds for an item, and \<^verbatim>\<open>save(load())\<close>
  with a write that succeeds.
\<close>

definition saved_path :: "file_content \<Rightarrow> string \<Rightarrow> jsval option" where
  "saved_path f k =
     (case f of
        JsonText v \<Rightarrow>
          (case prop_get v ''extractionPaths'' of
             Some saved \<Rightarrow> prop_get saved k
           | None \<Rightarrow> None)
      | _ \<Rightarrow> None)"

definition save_after_load :: "main_state \<Rightarrow> main_state" where
  "save_after_load st = saveProfile False (snd (loadProfile st)) (fst (loadProfile st))"

chapter \<open>Properties\<close>

section \<open>Extraction progress\<close>

lemma progress_values_append:
  "progress_values (xs @ ys) = progress_values xs @ progress_values ys"
  by (induction xs rule: progress_values.induct) simp_all

lemma session_inv_step:
  assumes "session_inv s"
  shows "session_inv (on_stdout_data gameId chunk s)"
proof (cases "regex_match (fst chunk)")
  case None
  then show ?thesis using assms by (simp add: on_stdout_data_def)
next
  case (Some d)
  show ?thesis
  proof (cases "d \<noteq> [] \<and> parseInt d \<ge> lastPercentage s")
    case False
    then show ?thesis using assms Some by (auto simp: on_stdout_data_def Let_def)
  next
    case True
    have le: "list_all (\<lambda>p. p \<le> parseInt d) (progress_values (delivered s))"
      using assms True by (auto simp: session_inv_def list_all_iff)
    then have "sorted (progress_values (delivered s) @ [parseInt d])"
      using assms by (auto simp: session_inv_def sorted_append list_all_iff)
    then show ?thesis
      using True Some le assms
      by (auto simp: on_stdout_data_def Let_def session_inv_def progress_values_append)
  qed
qed

lemma session_inv_run:
  "session_inv s \<Longrightarrow> session_inv (stdout_run gameId chunks s)"
  unfolding stdout_run_def
  by (induction chunks arbitrary: s) (simp_all add: session_inv_step)

lemma session_inv_new: "session_inv new_session"
  by (simp add: session_inv_def new_session_def)

text \<open>
  Claim C4.  Whatever chunks the decoder writes during one extraction run, and whatever
  the state of the delivery channel at each chunk, the percentages carried by the
  delivered decompression-progress events form a non-decreasing sequence.
\<close>

theorem C4_progress_non_decreasing:
  "sorted (progress_values (delivered (stdout_run gameId chunks new_session)))"
  using session_inv_run [OF session_inv_new, of gameId chunks]
  by (simp add: session_inv_def)

text \<open>
  Claim C3 (what the code does at a repeated percentage).  The guard of the handler is
  \<^verbatim>\<open>percentage >= lastPercentage\<close>, so a chunk that repeats the percentage delivered
  last passes the guard and is delivered again: two chunks reading 10 percent give
  two progress events carrying 10.
\<close>

theorem C3_duplicate_is_delivered_again:
  "delivered (stdout_run ''g'' [('' 10%'', False), ('' 10%'', False)] new_session) =
     [DecompressionProgress ''g'' 10, DecompressionProgress ''g'' 10]"
  by code_simp

section \<open>The executable locator\<close>

lemma all_matches_depth_ge:
  "(d', p) \<in> set (all_matches d directory files t) \<Longrightarrow> d \<le> d'"
  by (induction d directory files t arbitrary: d' p rule: all_matches.induct)
     (fastforce split: if_splits)+

lemma firstDirect_Some:
  "firstDirect directory files t = Some p \<Longrightarrow> (d, p) \<in> set (all_matches d directory files t)"
  by (induction d directory files t rule: all_matches.induct) (auto split: if_splits)

lemma firstDirect_None:
  "firstDirect directory files t = None \<Longrightarrow> (d', p) \<in> set (all_matches d directory files t) \<Longrightarrow> d < d'"
proof (induction d directory files t rule: all_matches.induct)
  case (3 d directory name sub rest targetExe)
  then show ?case
    using all_matches_depth_ge [of d' p "Suc d" "path_join directory name" sub targetExe]
    by auto
qed (auto split: if_splits)

lemma search_sound_complete:
  "(findExecutable directory listing t = Some p \<longrightarrow>
      (\<exists>files d'. listing = Some files \<and> (d', p) \<in> set (all_matches d directory files t))) \<and>
   (findExecutable directory listing t = None \<longrightarrow>
      (\<forall>files. listing = Some files \<longrightarrow> all_matches d directory files t = []))"
  "(searchSubdirs directory files t = Some p \<longrightarrow>
      (\<exists>d'. d < d' \<and> (d', p) \<in> set (all_matches d directory files t))) \<and>
   (searchSubdirs directory files t = None \<longrightarrow>
      list_all (\<lambda>m. fst m = d) (all_matches d directory files t))"
proof (induction directory listing t and directory files t arbitrary: d p and d p
       rule: findExecutable_searchSubdirs.induct)
  case (1 directory targetExe)
  then show ?case by simp
next
  case (2 directory files targetExe)
  show ?case
  proof (cases "firstDirect directory files targetExe")
    case None
    note IH = 2 [OF None, of p d]
    have "all_matches d directory files targetExe = []"
      if "searchSubdirs directory files targetExe = None"
    proof (rule ccontr)
      assume "all_matches d directory files targetExe \<noteq> []"
      then obtain m where m: "m \<in> set (all_matches d directory files targetExe)"
        by (cases "all_matches d directory files targetExe") auto
      then have "fst m = d" using IH that by (auto simp: list_all_iff)
      moreover have "d < fst m" using firstDirect_None [OF None, of "fst m" "snd m" d] m by simp
      ultimately show False by simp
    qed
    then show ?thesis using None IH by auto
  next
    case (Some q)
    then show ?thesis using firstDirect_Some [OF Some, of d] by auto
  qed
next
  case (3 directory targetExe)
  then show ?case by simp
next
  case (4 directory name sub rest targetExe)
  show ?case
  proof (cases "findExecutable (path_join directory name) sub targetExe")
    case None
    note IH1 = 4(1) [of p "Suc d"] and IH2 = 4(2) [OF None, of p d]
    show ?thesis
    proof (cases sub)
      case None
      then show ?thesis using IH2 by simp
    next
      case (Some fs)
      then show ?thesis using None IH1 IH2 by simp
    qed
  next
    case (Some q)
    note IH1 = 4(1) [of q "Suc d"]
    then obtain fs d' where "sub = Some fs" "(d', q) \<in> set (all_matches (Suc d) (path_join directory name) fs targetExe)"
      using Some by auto
    moreover from this have "d < d'"
      using all_matches_depth_ge [of d' q "Suc d" "path_join directory name" fs targetExe]
      by simp
    ultimately have "\<exists>d'. d < d' \<and> (d', q) \<in> set (all_matches d directory (DirEnt name sub # rest) targetExe)"
      by auto
    then show ?thesis using Some by (simp del: all_matches.simps) blast
  qed
next
  case (5 directory v rest targetExe)
  from 5 [of p d] show ?case by auto
next
  case (6 directory v rest targetExe)
  then show ?case by simp
qed

lemma first_append:
  "(case xs @ ys of [] \<Rightarrow> None | x # rest \<Rightarrow> Some x) =
   (case xs of [] \<Rightarrow> (case ys of [] \<Rightarrow> None | y # rest \<Rightarrow> Some y) | x # rest \<Rightarrow> Some x)"
  by (cases xs) simp_all

lemma firstDirect_first:
  "firstDirect directory files t =
     (case direct_matches directory files t of [] \<Rightarrow> None | p # rest \<Rightarrow> Some p)"
  by (induction directory files t rule: direct_matches.induct) simp_all

lemma search_first:
  "findExecutable directory listing t =
     (case listing of
        None \<Rightarrow> None
      | Some files \<Rightarrow>
          (case search_order directory files t of [] \<Rightarrow> None | p # rest \<Rightarrow> Some p))"
  "searchSubdirs directory files t =
     (case subdir_order directory files t of [] \<Rightarrow> None | p # rest \<Rightarrow> Some p)"
proof (induction directory listing t and directory files t
       rule: findExecutable_searchSubdirs.induct)
  case (1 directory targetExe)
  show ?case by simp
next
  case (2 directory files targetExe)
  show ?case
  proof (cases "firstDirect directory files targetExe")
    case None
    with 2 [OF None] show ?thesis
      by (simp add: first_append firstDirect_first split: list.splits)
  next
    case (Some q)
    then show ?thesis
      by (simp add: first_append firstDirect_first split: list.splits)
  qed
next
  case (3 directory targetExe)
  show ?case by simp
next
  case (4 directory name sub rest targetExe)
  show ?case
  proof (cases "findExecutable (path_join directory name) sub targetExe")
    case None
    with 4(1) 4(2) [OF None] show ?thesis
      by (cases sub) (simp_all add: first_append split: list.splits)
  next
    case (Some q)
    with 4(1) show ?thesis
      by (cases sub) (simp_all add: first_append split: list.splits)
  qed
next
  case (5 directory name rest targetExe)
  then show ?case by simp
next
  case (6 directory name rest targetExe)
  then show ?case by simp
qed

lemma search_order_matches:
  "snd ` set (all_matches d directory files t) = set (search_order directory files t)"
  "snd ` set (all_matches d directory files t) =
     set (direct_matches directory files t) \<union> set (subdir_order directory files t)"
proof (induction directory files t and directory files t arbitrary: d and d
       rule: search_order_subdir_order.induct)
  case (1 directory files targetExe)
  then show ?case by simp
next
  case (2 directory targetExe)
  show ?case by simp
next
  case (3 directory name sub rest targetExe)
  from 3(1) [of "Suc d"] 3(2) [of d] show ?case
    by (simp add: image_Un) blast
next
  case (4 directory name rest targetExe)
  from 4 [of d] show ?case by simp
next
  case (5 directory name rest targetExe)
  from 5 [of d] show ?case by (simp add: image_Un) blast
next
  case (6 directory name rest targetExe)
  from 6 [of d] show ?case by simp
qed

text \<open>
  Claim C1, as amended.  The path returned is the first match in the order of the
  two-phase search (the matching files of the directory in listing order, then the
  subdirectories in listing order, each searched in the same way), and nothing is
  returned when there is none; that order lists exactly the matching files of the
  readable tree.  Hence a matching file directly in the directory searched is returned
  in preference to every deeper match, whatever the listing order; whatever is returned
  is a matching file of the tree; and nothing is returned exactly when the readable tree
  holds no match.  (Below the first level the search is depth-first, so the match
  returned need not be the shallowest one.)
\<close>

theorem C1_first_match_in_search_order:
  "findExecutable root (Some files) t =
     (case search_order root files t of [] \<Rightarrow> None | p # rest \<Rightarrow> Some p) \<and>
   set (search_order root files t) = snd ` set (all_matches 0 root files t) \<and>
   ((0, q) \<in> set (all_matches 0 root files t) \<longrightarrow>
      (\<exists>p. findExecutable root (Some files) t = Some p \<and> (0, p) \<in> set (all_matches 0 root files t))) \<and>
   (findExecutable root (Some files) t = Some p \<longrightarrow>
      (\<exists>d. (d, p) \<in> set (all_matches 0 root files t))) \<and>
   (findExecutable root (Some files) t = None \<longleftrightarrow> all_matches 0 root files t = [])"
proof (intro conjI impI)
  show "findExecutable root (Some files) t =
     (case search_order root files t of [] \<Rightarrow> None | p # rest \<Rightarrow> Some p)"
    using search_first(1) [of root "Some files" t] by simp
next
  show "set (search_order root files t) = snd ` set (all_matches 0 root files t)"
    by (rule search_order_matches(1) [symmetric])
next
  assume q: "(0, q) \<in> set (all_matches 0 root files t)"
  show "\<exists>p. findExecutable root (Some files) t = Some p \<and> (0, p) \<in> set (all_matches 0 root files t)"
  proof (cases "firstDirect root files t")
    case None
    then show ?thesis using firstDirect_None [OF None q] by simp
  next
    case (Some p')
    then show ?thesis using firstDirect_Some [OF Some, of 0] by simp
  qed
next
  assume "findExecutable root (Some files) t = Some p"
  then show "\<exists>d. (d, p) \<in> set (all_matches 0 root files t)"
    using search_sound_complete(1) [of root "Some files" t p 0] by auto
next
  show "findExecutable root (Some files) t = None \<longleftrightarrow> all_matches 0 root files t = []"
  proof
    assume "findExecutable root (Some files) t = None"
    then show "all_matches 0 root files t = []"
      using search_sound_complete(1) [of root "Some files" t undefined 0] by auto
  next
    assume e: "all_matches 0 root files t = []"
    show "findExecutable root (Some files) t = None"
    proof (cases "findExecutable root (Some files) t")
      case None then show ?thesis .
    next
      case (Some p')
      then show ?thesis
        using search_sound_complete(1) [of root "Some files" t p' 0] e by auto
    qed
  qed
qed

theorem C1_first_match_in_search_order_witness:
  "(0, ''x/TERRARIA.EXE'') \<in> set (all_matches 0 ''x'' tree2 ''Terraria.exe'') \<and>
   (1, ''x/a/Terraria.exe'') \<in> set (all_matches 0 ''x'' tree2 ''Terraria.exe'') \<and>
   search_order ''x'' tree2 ''Terraria.exe'' = [''x/TERRARIA.EXE'', ''x/a/Terraria.exe''] \<and>
   findExecutable ''x'' (Some tree2) ''Terraria.exe'' = Some ''x/TERRARIA.EXE'' \<and>
   search_order ''x'' tree3 ''Terraria.exe'' = [''x/a/Terraria.exe'', ''x/b/Terraria.exe''] \<and>
   findExecutable ''x'' (Some tree3) ''Terraria.exe'' = Some ''x/a/Terraria.exe'' \<and>
   search_order ''x'' tree1 ''Terraria.exe'' = [''x/a/b/Terraria.exe'', ''x/c/terraria.EXE''] \<and>
   findExecutable ''x'' (Some tree1) ''Terraria.exe'' = Some ''x/a/b/Terraria.exe''"
proof -
  have o2: "search_order ''x'' tree2 ''Terraria.exe'' = [''x/TERRARIA.EXE'', ''x/a/Terraria.exe'']"
    by (simp add: tree2_def toLowerCase_def path_join_def)
  have o3: "search_order ''x'' tree3 ''Terraria.exe'' = [''x/a/Terraria.exe'', ''x/b/Terraria.exe'']"
    by (simp add: tree3_def toLowerCase_def path_join_def)
  have o1: "search_order ''x'' tree1 ''Terraria.exe'' = [''x/a/b/Terraria.exe'', ''x/c/terraria.EXE'']"
    by (simp add: tree1_def toLowerCase_def path_join_def)
  have m: "(0, ''x/TERRARIA.EXE'') \<in> set (all_matches 0 ''x'' tree2 ''Terraria.exe'')"
    "(1, ''x/a/Terraria.exe'') \<in> set (all_matches 0 ''x'' tree2 ''Terraria.exe'')"
    by (simp_all add: tree2_def toLowerCase_def path_join_def)
  from C1_first_match_in_search_order [of "''x''" tree2 "''Terraria.exe''" "''x/TERRARIA.EXE''" "''x/TERRARIA.EXE''"] o2
  have f2: "findExecutable ''x'' (Some tree2) ''Terraria.exe'' = Some ''x/TERRARIA.EXE''"
    by simp
  from C1_first_match_in_search_order [of "''x''" tree3 "''Terraria.exe''" "''x/a/Terraria.exe''" "''x/a/Terraria.exe''"] o3
  have f3: "findExecutable ''x'' (Some tree3) ''Terraria.exe'' = Some ''x/a/Terraria.exe''"
    by simp
  from C1_first_match_in_search_order [of "''x''" tree1 "''Terraria.exe''" "''x/a/b/Terraria.exe''" "''x/a/b/Terraria.exe''"] o1
  have f1: "findExecutable ''x'' (Some tree1) ''Terraria.exe'' = Some ''x/a/b/Terraria.exe''"
    by simp
  from m o1 o2 o3 f1 f2 f3 show ?thesis by simp
qed

text \<open>
  Claim C1 as stated fails: with no match at the top level, the first subdirectory in
  listing order is searched to the bottom before the next one is opened, so the match
  at depth 2 under \<^verbatim>\<open>a/b\<close> is returned although \<^verbatim>\<open>c\<close> holds one at depth 1.
\<close>

theorem C1_deeper_match_returned_first:
  "\<not> shallowest_match_returned ''x'' tree1 ''Terraria.exe''"
  by (simp add: shallowest_match_returned_def tree1_def toLowerCase_def path_join_def)

section \<open>The profile store\<close>

lemma structure_ok_iff:
  "structure_ok v \<longleftrightarrow>
     is_object (Some v) \<and> isArray (prop_get v ''library'') \<and> typeof_object (prop_get v ''user'')"
  by (cases v) (auto simp: structure_ok_def)

lemma is_object_typeof: "is_object x \<Longrightarrow> typeof_object x"
  by (cases x rule: is_object.cases) auto

lemma typeof_not_object: "typeof_object x \<Longrightarrow> \<not> is_object x \<Longrightarrow> x = Some JNull"
  by (cases x rule: typeof_object.cases) auto

lemma assign_object:
  "is_object (Some t) \<Longrightarrow> \<exists>t'. assign t k v = Inr t' \<and> is_object (Some t') \<and>
      prop_get t' k = Some v \<and> (\<forall>k'. k' \<noteq> k \<longrightarrow> prop_get t' k' = prop_get t k')"
  by (cases t) (auto simp: prop_get_def props_def update_conv')

lemma assign_Inr:
  "assign t k v = Inr t' \<Longrightarrow> is_object (Some t) \<and> is_object (Some t') \<and>
      prop_get t' k = Some v \<and> (\<forall>k'. k' \<noteq> k \<longrightarrow> prop_get t' k' = prop_get t k')"
  by (cases t) (auto simp: prop_get_def props_def update_conv')

lemma and_then_Inr_iff: "and_then m f = Inr y \<longleftrightarrow> (\<exists>x. m = Inr x \<and> f x = Inr y)"
  by (cases m) (simp_all add: and_then_def)

lemma and_then_Inl [simp]: "and_then (Inl e) f = Inl e"
  by (simp add: and_then_def)

lemma and_then_Inr [simp]: "and_then (Inr x) f = f x"
  by (simp add: and_then_def)



lemma rebuild_user_null: "rebuild_user JNull = Inl TypeError"
  by (simp add: rebuild_user_def)

lemma normalize_parsed_null_user:
  "prop_get v ''user'' = Some JNull \<Longrightarrow> \<exists>e. normalize_parsed v table = Inl e"
proof -
  assume u: "prop_get v ''user'' = Some JNull"
  have "\<not> (\<exists>y. normalize_parsed v table = Inr y)"
    using u by (auto simp: normalize_parsed_def and_then_Inr_iff rebuild_user_null
        split: option.splits jsval.splits)
  then show ?thesis by (cases "normalize_parsed v table") auto
qed

lemma load_validated_null_user:
  "prop_get v ''user'' = Some JNull \<Longrightarrow> \<exists>e. load_validated v st = (st, Inl e)"
  using normalize_parsed_null_user [of v "extractionPaths st"]
  by (auto simp: load_validated_def)

lemma backfill_rel:
  "backfill_playtime games = Inr games' \<Longrightarrow>
     list_all2 (\<lambda>g g'. assign g ''playtime'' (or_else (prop_get g ''playtime'') (JNum 0)) = Inr g')
       games games'"
  by (induction games arbitrary: games') (auto split: sum.splits)

lemma prop_get_JObj [simp]: "prop_get (JObj ps) k = map_of ps k"
  by (simp add: prop_get_def props_def)

lemma prop_get_JArr [simp]: "prop_get (JArr xs ps) k = map_of ps k"
  by (simp add: prop_get_def props_def)

lemma or_else_None [simp]: "or_else None d = d"
  by (simp add: or_else_def)

lemma or_else_truthy: "truthy a \<Longrightarrow> Some (or_else a d) = a"
  by (cases a) (auto simp: or_else_def)

lemma assign_backfills:
  "assign g ''playtime'' (or_else (prop_get g ''playtime'') (JNum 0)) = Inr g' \<Longrightarrow> backfilled_game g g'"
  using assign_Inr [of g "''playtime''" "or_else (prop_get g ''playtime'') (JNum 0)" g']
  by (auto simp: backfilled_game_def or_else_truthy)

lemma backfill_playtime_backfills:
  "backfill_playtime games = Inr games' \<Longrightarrow> list_all2 backfilled_game games games'"
  using backfill_rel [of games games'] assign_backfills
  by (auto elim!: list_all2_mono)

lemma rebuild_user_fills:
  "rebuild_user user = Inr user' \<Longrightarrow> user_defaults_filled user user'"
  by (auto simp: rebuild_user_def user_defaults_filled_def or_else_truthy
      split: if_splits option.splits jsval.splits)

lemma normalize_parsed_Inr:
  assumes "normalize_parsed v table = Inr (p, library, table')"
  obtains games lps user games' user' where
    "prop_get v ''library'' = Some (JArr games lps)" and "prop_get v ''user'' = Some user" and
    "backfill_playtime games = Inr games'" and "rebuild_user user = Inr user'" and
    "library = JArr games' lps" and
    "prop_get p ''library'' = Some (JArr games' lps)" and "prop_get p ''user'' = Some user'" and
    "\<And>k. k \<noteq> ''library'' \<Longrightarrow> k \<noteq> ''user'' \<Longrightarrow> prop_get p k = prop_get v k" and
    "load_extraction_paths p table = Inr table'"
proof -
  from assms obtain games lps user where
    lib: "prop_get v ''library'' = Some (JArr games lps)" and usr: "prop_get v ''user'' = Some user"
    by (auto simp: normalize_parsed_def split: option.splits jsval.splits)
  from assms lib usr obtain games' d1 user' where
    bf: "backfill_playtime games = Inr games'" and
    a1: "assign v ''library'' (JArr games' lps) = Inr d1" and
    ru: "rebuild_user user = Inr user'" and
    a2: "assign d1 ''user'' user' = Inr p" and
    mg: "load_extraction_paths p table = Inr table'" and
    l: "library = JArr games' lps"
    by (auto simp: normalize_parsed_def and_then_Inr_iff)
  from assign_Inr [OF a1] assign_Inr [OF a2]
  have "prop_get p ''library'' = Some (JArr games' lps)" "prop_get p ''user'' = Some user'"
    "\<And>k. k \<noteq> ''library'' \<Longrightarrow> k \<noteq> ''user'' \<Longrightarrow> prop_get p k = prop_get v k"
    by auto
  with lib usr bf ru l mg show ?thesis using that by blast
qed

lemma load_validated_Inr:
  assumes "load_validated v st = (st', Inr p)"
  obtains library table' where
    "normalize_parsed v (extractionPaths st) = Inr (p, library, table')" and
    "st' = broadcast (ProfileLoaded library) (st\<lparr> extractionPaths := table' \<rparr>)"
  using assms by (auto simp: load_validated_def split: sum.splits)

lemma merge_fold_other:
  "k \<notin> set ks \<Longrightarrow>
   map_of (foldl (\<lambda>t gameId. case map_of entries gameId of
                                  Some v \<Rightarrow> AList.update gameId v t
                                | None \<Rightarrow> t) table ks) k = map_of table k"
  by (induction ks arbitrary: table) (auto simp: update_conv' split: option.splits)

lemma merge_fold_member:
  "k \<in> set ks \<Longrightarrow> map_of entries k = Some e \<Longrightarrow>
   map_of (foldl (\<lambda>t gameId. case map_of entries gameId of
                                  Some v \<Rightarrow> AList.update gameId v t
                                | None \<Rightarrow> t) table ks) k = Some e"
proof (induction ks arbitrary: table)
  case Nil
  then show ?case by simp
next
  case (Cons a ks)
  show ?case
  proof (cases "k \<in> set ks")
    case True
    then show ?thesis using Cons by simp
  next
    case False
    then have "a = k" using Cons.prems(1) by simp
    then show ?thesis
      using False Cons.prems(2) merge_fold_other [of k ks entries "AList.update k e table"]
      by (simp add: update_conv')
  qed
qed

lemma merge_fold_keys:
  "fst ` set table \<subseteq>
   fst ` set (foldl (\<lambda>t gameId. case map_of entries gameId of
                                  Some v \<Rightarrow> AList.update gameId v t
                                | None \<Rightarrow> t) table ks)"
proof (induction ks arbitrary: table)
  case Nil
  then show ?case by simp
next
  case (Cons a ks)
  show ?case
  proof (cases "map_of entries a")
    case None
    then show ?thesis using Cons [of table] by simp
  next
    case (Some v)
    have "fst ` set table \<subseteq> fst ` set (AList.update a v table)"
      by (auto simp: dom_update)
    also note Cons [of "AList.update a v table"]
    finally show ?thesis using Some by simp
  qed
qed

lemma merge_paths_Inr:
  assumes "merge_paths saved table = Inr table'"
  shows "k \<notin> set (map fst (own_entries saved)) \<Longrightarrow> map_of table' k = map_of table k"
    and "fst ` set table \<subseteq> fst ` set table'"
  using assms merge_fold_other [of k "map fst (own_entries saved)" "own_entries saved" table]
    merge_fold_keys [of table "own_entries saved" "map fst (own_entries saved)"]
  by (auto simp: merge_paths_def Let_def split: if_splits)

lemma load_extraction_paths_Inr:
  assumes "load_extraction_paths p table = Inr table'"
  shows "k \<notin> set (case prop_get p ''extractionPaths'' of
                      Some saved \<Rightarrow> map fst (own_entries saved) | None \<Rightarrow> []) \<Longrightarrow>
           map_of table' k = map_of table k"
    and "fst ` set table \<subseteq> fst ` set table'"
  using assms merge_paths_Inr(1) [where table = table and table' = table' and k = k]
    merge_paths_Inr(2) [where table = table and table' = table']
  by (auto simp: load_extraction_paths_def split: option.splits if_splits)

lemma normalize_parsed_other:
  assumes "normalize_parsed v table = Inr (p, library, table')"
    and "k \<noteq> ''library''" and "k \<noteq> ''user''"
  shows "prop_get p k = prop_get v k"
  by (rule normalize_parsed_Inr [OF assms(1)]) (simp add: assms(2,3))

lemma normalize_parsed_paths:
  assumes "normalize_parsed v table = Inr (p, library, table')"
  shows "load_extraction_paths p table = Inr table'"
  by (rule normalize_parsed_Inr [OF assms])

lemma loadProfile_try_cases:
  obtains (unchanged) r where "loadProfile_try st = (st, r)"
  | (merged) v p library table' where
      "user_data_file st = JsonText v"
      "normalize_parsed v (extractionPaths st) = Inr (p, library, table')"
      "loadProfile_try st =
         (broadcast (ProfileLoaded library) (st\<lparr> extractionPaths := table' \<rparr>), Inr p)"
proof (cases "user_data_file st")
  case (JsonText v)
  show ?thesis
  proof (cases "structure_ok v")
    case True
    show ?thesis
    proof (cases "normalize_parsed v (extractionPaths st)")
      case (Inl e)
      then have "loadProfile_try st = (st, Inl e)"
        using JsonText True by (simp add: loadProfile_try_def load_validated_def)
      then show ?thesis by (rule unchanged)
    next
      case (Inr y)
      obtain p library table' where y: "y = (p, library, table')" by (cases y) auto
      have "loadProfile_try st =
         (broadcast (ProfileLoaded library) (st\<lparr> extractionPaths := table' \<rparr>), Inr p)"
        using JsonText True Inr y by (simp add: loadProfile_try_def load_validated_def)
      with JsonText Inr y show ?thesis by (intro merged [of v p library table']) simp_all
    qed
  next
    case False
    then have "loadProfile_try st = (st, Inr defaultProfile)"
      using JsonText by (simp add: loadProfile_try_def)
    then show ?thesis by (rule unchanged)
  qed
qed (auto simp: loadProfile_try_def intro: unchanged)

lemma extractionPaths_broadcast [simp]: "extractionPaths (broadcast e st) = extractionPaths st"
  by (simp add: broadcast_def)

lemma user_data_file_broadcast [simp]: "user_data_file (broadcast e st) = user_data_file st"
  by (simp add: broadcast_def)

lemma loadProfile_table:
  shows "k \<notin> set (persisted_path_keys (user_data_file st)) \<Longrightarrow>
           map_of (extractionPaths (fst (loadProfile st))) k = map_of (extractionPaths st) k"
    and "fst ` set (extractionPaths st) \<subseteq> fst ` set (extractionPaths (fst (loadProfile st)))"
    and "user_data_file (fst (loadProfile st)) = user_data_file st"
proof -
  have "(k \<notin> set (persisted_path_keys (user_data_file st)) \<longrightarrow>
           map_of (extractionPaths (fst (loadProfile st))) k = map_of (extractionPaths st) k) \<and>
        fst ` set (extractionPaths st) \<subseteq> fst ` set (extractionPaths (fst (loadProfile st))) \<and>
        user_data_file (fst (loadProfile st)) = user_data_file st"
  proof (cases st rule: loadProfile_try_cases)
    case (unchanged r)
    then show ?thesis by (cases r) (simp_all add: loadProfile_def)
  next
    case (merged v p library table')
    have ep: "prop_get p ''extractionPaths'' = prop_get v ''extractionPaths''"
      by (rule normalize_parsed_other [OF merged(2)]) simp_all
    have mg: "load_extraction_paths p (extractionPaths st) = Inr table'"
      by (rule normalize_parsed_paths [OF merged(2)])
    have st': "fst (loadProfile st) = broadcast (ProfileLoaded library) (st\<lparr> extractionPaths := table' \<rparr>)"
      using merged(3) by (simp add: loadProfile_def)
    show ?thesis
      using load_extraction_paths_Inr(1) [OF mg, of k] load_extraction_paths_Inr(2) [OF mg] ep merged(1)
      by (auto simp: st' persisted_path_keys_def split: option.splits)
  qed
  then show "k \<notin> set (persisted_path_keys (user_data_file st)) \<Longrightarrow>
           map_of (extractionPaths (fst (loadProfile st))) k = map_of (extractionPaths st) k"
    and "fst ` set (extractionPaths st) \<subseteq> fst ` set (extractionPaths (fst (loadProfile st)))"
    and "user_data_file (fst (loadProfile st)) = user_data_file st"
    by auto
qed

lemma map_of_stringify:
  "map_of (map (\<lambda>(k, v). (k, stringify v)) ps) k = map_option stringify (map_of ps k)"
  by (induction ps) auto

lemma saveProfile_plain_object:
  "\<exists>w. user_data_file (saveProfile False (JObj ps) st) = JsonText w \<and>
       prop_get w ''extractionPaths'' =
         Some (JObj (map (\<lambda>(k, v). (k, stringify v)) (extractionPaths st)))"
  by (simp add: saveProfile_def map_of_stringify update_conv')

lemma backfill_playtime_objects:
  "list_all (\<lambda>game. is_object (Some game)) games \<Longrightarrow> \<exists>games'. backfill_playtime games = Inr games'"
proof (induction games)
  case Nil
  then show ?case by simp
next
  case (Cons game rest)
  from Cons.prems have "is_object (Some game)" by simp
  from assign_object [OF this] obtain game' where
    "assign game ''playtime'' (or_else (prop_get game ''playtime'') (JNum 0)) = Inr game'"
    by blast
  moreover from Cons obtain rest' where "backfill_playtime rest = Inr rest'" by auto
  ultimately show ?case by simp
qed

lemma backfill_playtime_Inr_objects:
  "backfill_playtime games = Inr games' \<Longrightarrow> list_all (\<lambda>game. is_object (Some game)) games"
proof (induction games arbitrary: games')
  case Nil
  then show ?case by simp
next
  case (Cons game rest)
  from Cons.prems obtain game' rest' where
    a: "assign game ''playtime'' (or_else (prop_get game ''playtime'') (JNum 0)) = Inr game'" and
    r: "backfill_playtime rest = Inr rest'"
    by (auto split: sum.splits)
  from assign_Inr [OF a] Cons.IH [OF r] show ?case by simp
qed

lemma props_own_entries: "map_of (props saved) k \<noteq> None \<Longrightarrow> own_entries saved \<noteq> []"
  by (cases saved) (auto simp: props_def own_entries_def)

lemma merge_paths_total:
  "prop_get saved ''hasOwnProperty'' = None \<Longrightarrow> \<exists>table'. merge_paths saved table = Inr table'"
  by (simp add: merge_paths_def prop_get_def Let_def)

lemma merge_paths_Inr_reserved:
  assumes "merge_paths saved table = Inr table'"
  shows "prop_get saved ''hasOwnProperty'' = None"
proof (rule ccontr)
  assume "prop_get saved ''hasOwnProperty'' \<noteq> None"
  then have p: "map_of (props saved) ''hasOwnProperty'' \<noteq> None"
    by (simp add: prop_get_def)
  from props_own_entries [OF p] p have "merge_paths saved table = Inl TypeError"
    by (simp add: merge_paths_def Let_def)
  with assms show False by simp
qed

lemma merge_paths_entry:
  assumes "merge_paths saved table = Inr table'" and "k \<in> set (map fst (own_entries saved))"
  shows "map_of table' k = map_of (own_entries saved) k"
proof -
  from assms(2) obtain e where e: "map_of (own_entries saved) k = Some e"
    by (metis map_of_eq_None_iff not_None_eq set_map)
  from assms(1) have "table' = foldl (\<lambda>t gameId. case map_of (own_entries saved) gameId of
                                  Some v \<Rightarrow> AList.update gameId v t
                                | None \<Rightarrow> t) table (map fst (own_entries saved))"
    by (simp add: merge_paths_def Let_def split: if_splits)
  with merge_fold_member [OF assms(2) e, of table] e show ?thesis by simp
qed

lemma load_extraction_paths_total:
  assumes "case prop_get d ''extractionPaths'' of
             None \<Rightarrow> True
           | Some saved \<Rightarrow> prop_get saved ''hasOwnProperty'' = None"
  shows "\<exists>table'. load_extraction_paths d table = Inr table'"
proof (cases "prop_get d ''extractionPaths''")
  case None
  then show ?thesis by (simp add: load_extraction_paths_def)
next
  case (Some saved)
  with assms have "prop_get saved ''hasOwnProperty'' = None" by simp
  from merge_paths_total [OF this, of table] Some show ?thesis
    by (auto simp: load_extraction_paths_def)
qed

lemma load_extraction_paths_Inr_reserved:
  assumes "load_extraction_paths d table = Inr table'"
  shows "case prop_get d ''extractionPaths'' of
           None \<Rightarrow> True
         | Some saved \<Rightarrow> prop_get saved ''hasOwnProperty'' = None"
proof (cases "prop_get d ''extractionPaths''")
  case None
  then show ?thesis by simp
next
  case (Some saved)
  show ?thesis
  proof (cases "truthy (Some saved) \<and> typeof_object (Some saved)")
    case True
    with assms Some have "merge_paths saved table = Inr table'"
      by (simp add: load_extraction_paths_def)
    from merge_paths_Inr_reserved [OF this] Some show ?thesis by simp
  next
    case False
    then have "prop_get saved ''hasOwnProperty'' = None"
      by (cases saved) (auto simp: prop_get_def props_def)
    with Some show ?thesis by simp
  qed
qed

lemma load_extraction_paths_entry:
  assumes "load_extraction_paths d table = Inr table'"
    and "k \<in> set (persisted_path_keys (JsonText d))"
  shows "map_of table' k = persisted_path_entry (JsonText d) k"
proof (cases "prop_get d ''extractionPaths''")
  case None
  with assms(2) show ?thesis by (simp add: persisted_path_keys_def)
next
  case (Some saved)
  with assms(2) have k: "k \<in> set (map fst (own_entries saved))"
    by (simp add: persisted_path_keys_def)
  then have "own_entries saved \<noteq> []" by auto
  then have "truthy (Some saved) \<and> typeof_object (Some saved)"
    by (cases saved) (auto simp: own_entries_def)
  with assms(1) Some have "merge_paths saved table = Inr table'"
    by (simp add: load_extraction_paths_def)
  from merge_paths_entry [OF this k] Some show ?thesis
    by (simp add: persisted_path_entry_def)
qed

lemma usable_structure_ok: "usable_profile v \<Longrightarrow> structure_ok v"
  by (auto simp: usable_profile_def structure_ok_iff is_object_typeof
      split: option.splits jsval.splits)

lemma normalize_parsed_usable:
  assumes "usable_profile v"
  shows "\<exists>p library table'. normalize_parsed v table = Inr (p, library, table')"
proof -
  from assms have v: "is_object (Some v)" and uo': "is_object (prop_get v ''user'')" and
    tbl: "case prop_get v ''extractionPaths'' of
            None \<Rightarrow> True
          | Some saved \<Rightarrow> prop_get saved ''hasOwnProperty'' = None"
    by (simp_all add: usable_profile_def)
  from assms obtain games lps where
    lib: "prop_get v ''library'' = Some (JArr games lps)" and
    recs: "list_all (\<lambda>game. is_object (Some game)) games"
    by (auto simp: usable_profile_def split: option.splits jsval.splits)
  from uo' obtain user where
    usr: "prop_get v ''user'' = Some user" and uo: "is_object (Some user)"
    by (cases "prop_get v ''user''") auto
  from backfill_playtime_objects [OF recs] obtain games' where
    bf: "backfill_playtime games = Inr games'" ..
  from assign_object [OF v, of "''library''" "JArr games' lps"] obtain d1 where
    a1: "assign v ''library'' (JArr games' lps) = Inr d1" and d1: "is_object (Some d1)" and
    k1: "\<forall>k'. k' \<noteq> ''library'' \<longrightarrow> prop_get d1 k' = prop_get v k'"
    by blast
  from uo have "user \<noteq> JNull" by auto
  then obtain user' where ru: "rebuild_user user = Inr user'"
    by (simp add: rebuild_user_def)
  from assign_object [OF d1, of "''user''" user'] obtain d2 where
    a2: "assign d1 ''user'' user' = Inr d2" and
    k2: "\<forall>k'. k' \<noteq> ''user'' \<longrightarrow> prop_get d2 k' = prop_get d1 k'"
    by blast
  from k1 k2 have "prop_get d2 ''extractionPaths'' = prop_get v ''extractionPaths''"
    by simp
  with tbl have "case prop_get d2 ''extractionPaths'' of
            None \<Rightarrow> True
          | Some saved \<Rightarrow> prop_get saved ''hasOwnProperty'' = None"
    by simp
  from load_extraction_paths_total [OF this, of table] obtain table' where
    mg: "load_extraction_paths d2 table = Inr table'" ..
  have "normalize_parsed v table = Inr (d2, JArr games' lps, table')"
    by (simp add: normalize_parsed_def lib usr bf a1 ru a2 mg)
  then show ?thesis by blast
qed

lemma normalize_parsed_Inr_usable:
  assumes "structure_ok v" and "normalize_parsed v table = Inr (p, library, table')"
  shows "usable_profile v"
proof -
  from assms(2) obtain games lps user games' user' where
    lib: "prop_get v ''library'' = Some (JArr games lps)" and
    usr: "prop_get v ''user'' = Some user" and
    bf: "backfill_playtime games = Inr games'" and
    ru: "rebuild_user user = Inr user'" and
    mg: "load_extraction_paths p table = Inr table'"
    by (rule normalize_parsed_Inr)
  have ep: "prop_get p ''extractionPaths'' = prop_get v ''extractionPaths''"
    by (rule normalize_parsed_Inr [OF assms(2)]) simp
  from assms(1) have v: "is_object (Some v)" and tu: "typeof_object (prop_get v ''user'')"
    by (simp_all add: structure_ok_iff)
  from ru have "user \<noteq> JNull" by (auto simp: rebuild_user_def)
  with tu usr have uo: "is_object (prop_get v ''user'')"
    using typeof_not_object [of "Some user"] by auto
  from load_extraction_paths_Inr_reserved [OF mg] ep
  have tbl: "case prop_get v ''extractionPaths'' of
            None \<Rightarrow> True
          | Some saved \<Rightarrow> prop_get saved ''hasOwnProperty'' = None"
    by simp
  from v lib backfill_playtime_Inr_objects [OF bf] uo tbl show ?thesis
    by (simp add: usable_profile_def)
qed

lemma loadProfile_default:
  assumes "\<forall>v. user_data_file st = JsonText v \<longrightarrow> \<not> usable_profile v"
  shows "loadProfile st = (st, defaultProfile)"
proof (cases "user_data_file st")
  case (JsonText v)
  with assms have nu: "\<not> usable_profile v" by simp
  show ?thesis
  proof (cases "structure_ok v")
    case False
    with JsonText show ?thesis by (simp add: loadProfile_def loadProfile_try_def)
  next
    case True
    have "\<exists>e. normalize_parsed v (extractionPaths st) = Inl e"
    proof (cases "normalize_parsed v (extractionPaths st)")
      case (Inl e)
      then show ?thesis by simp
    next
      case (Inr y)
      obtain p library table' where "y = (p, library, table')" by (cases y) auto
      with Inr normalize_parsed_Inr_usable [OF True, of "extractionPaths st" p library table'] nu
      show ?thesis by simp
    qed
    then obtain e where "normalize_parsed v (extractionPaths st) = Inl e" ..
    with JsonText True show ?thesis
      by (simp add: loadProfile_def loadProfile_try_def load_validated_def)
  qed
qed (simp_all add: loadProfile_def loadProfile_try_def)

lemma loadProfile_usable:
  assumes "user_data_file st = JsonText v" and "usable_profile v"
  obtains p library table' where
    "normalize_parsed v (extractionPaths st) = Inr (p, library, table')" and
    "loadProfile st =
       (broadcast (ProfileLoaded library) (st\<lparr> extractionPaths := table' \<rparr>), p)"
proof -
  from normalize_parsed_usable [OF assms(2), of "extractionPaths st"] obtain p library table'
    where n: "normalize_parsed v (extractionPaths st) = Inr (p, library, table')"
    by blast
  from usable_structure_ok [OF assms(2)] assms(1) n
  have "loadProfile st =
       (broadcast (ProfileLoaded library) (st\<lparr> extractionPaths := table' \<rparr>), p)"
    by (simp add: loadProfile_def loadProfile_try_def load_validated_def)
  with n show ?thesis by (rule that)
qed




text \<open>
  Claim C10.  An entry of the in-memory installed-path table whose item id does not
  appear in the persisted file is unchanged by a load; a load removes no key of the
  table; and the entry is part of what the next save of a profile object writes.  When
  the file is usable, every entry of its table is in the in-memory table after the
  load, in place of an older entry of the same id; when the load falls back to the
  default profile, the table is as before.
\<close>

theorem C10_load_merges_and_keeps_paths:
  "(k \<notin> set (persisted_path_keys (user_data_file st)) \<longrightarrow>
      map_of (extractionPaths (fst (loadProfile st))) k = map_of (extractionPaths st) k) \<and>
   fst ` set (extractionPaths st) \<subseteq> fst ` set (extractionPaths (fst (loadProfile st))) \<and>
   (k \<notin> set (persisted_path_keys (user_data_file st)) \<and> map_of (extractionPaths st) k = Some r \<longrightarrow>
      (\<exists>w saved. user_data_file (saveProfile False (JObj ps) (fst (loadProfile st))) = JsonText w \<and>
          prop_get w ''extractionPaths'' = Some saved \<and>
          prop_get saved k = Some (stringify r))) \<and>
   (\<forall>v. user_data_file st = JsonText v \<and> usable_profile v \<and>
        k \<in> set (persisted_path_keys (user_data_file st)) \<longrightarrow>
      persisted_path_entry (user_data_file st) k \<noteq> None \<and>
      map_of (extractionPaths (fst (loadProfile st))) k = persisted_path_entry (user_data_file st) k) \<and>
   ((\<forall>v. user_data_file st = JsonText v \<longrightarrow> \<not> usable_profile v) \<longrightarrow>
      extractionPaths (fst (loadProfile st)) = extractionPaths st)"
proof (intro conjI impI allI)
  assume "k \<notin> set (persisted_path_keys (user_data_file st))"
  then show "map_of (extractionPaths (fst (loadProfile st))) k = map_of (extractionPaths st) k"
    by (rule loadProfile_table(1))
next
  show "fst ` set (extractionPaths st) \<subseteq> fst ` set (extractionPaths (fst (loadProfile st)))"
    by (rule loadProfile_table(2))
next
  assume a: "k \<notin> set (persisted_path_keys (user_data_file st)) \<and> map_of (extractionPaths st) k = Some r"
  then have kept: "map_of (extractionPaths (fst (loadProfile st))) k = Some r"
    using loadProfile_table(1) [of k st] by simp
  from saveProfile_plain_object [of ps "fst (loadProfile st)"] obtain w where
    w: "user_data_file (saveProfile False (JObj ps) (fst (loadProfile st))) = JsonText w"
       "prop_get w ''extractionPaths'' =
          Some (JObj (map (\<lambda>(k, v). (k, stringify v)) (extractionPaths (fst (loadProfile st)))))"
    by blast
  have "prop_get (JObj (map (\<lambda>(k, v). (k, stringify v)) (extractionPaths (fst (loadProfile st))))) k
          = Some (stringify r)"
    using kept by (simp add: map_of_stringify)
  with w show "\<exists>w saved. user_data_file (saveProfile False (JObj ps) (fst (loadProfile st))) = JsonText w \<and>
          prop_get w ''extractionPaths'' = Some saved \<and>
          prop_get saved k = Some (stringify r)"
    by blast
next
  fix v
  assume a: "user_data_file st = JsonText v \<and> usable_profile v \<and>
        k \<in> set (persisted_path_keys (user_data_file st))"
  then have f: "user_data_file st = JsonText v" and u: "usable_profile v"
    and k: "k \<in> set (persisted_path_keys (JsonText v))"
    by auto
  from f u obtain p library table' where
    n: "normalize_parsed v (extractionPaths st) = Inr (p, library, table')" and
    l: "loadProfile st =
       (broadcast (ProfileLoaded library) (st\<lparr> extractionPaths := table' \<rparr>), p)"
    by (rule loadProfile_usable)
  have ep: "prop_get p ''extractionPaths'' = prop_get v ''extractionPaths''"
    by (rule normalize_parsed_other [OF n]) simp_all
  have mg: "load_extraction_paths p (extractionPaths st) = Inr table'"
    by (rule normalize_parsed_paths [OF n])
  from k ep have k': "k \<in> set (persisted_path_keys (JsonText p))"
    by (simp add: persisted_path_keys_def)
  from load_extraction_paths_entry [OF mg k'] ep
  have "map_of table' k = persisted_path_entry (JsonText v) k"
    by (simp add: persisted_path_entry_def)
  with l f show "map_of (extractionPaths (fst (loadProfile st))) k =
      persisted_path_entry (user_data_file st) k"
    by simp
  show "persisted_path_entry (user_data_file st) k \<noteq> None"
  proof (cases "prop_get v ''extractionPaths''")
    case None
    with k show ?thesis by (simp add: persisted_path_keys_def)
  next
    case (Some saved)
    with k have "k \<in> fst ` set (own_entries saved)"
      by (simp add: persisted_path_keys_def)
    then have "map_of (own_entries saved) k \<noteq> None"
      by (simp add: map_of_eq_None_iff)
    with Some f show ?thesis by (simp add: persisted_path_entry_def)
  qed
next
  assume "\<forall>v. user_data_file st = JsonText v \<longrightarrow> \<not> usable_profile v"
  then have "loadProfile st = (st, defaultProfile)" by (rule loadProfile_default)
  then show "extractionPaths (fst (loadProfile st)) = extractionPaths st" by simp
qed

theorem C10_load_merges_and_keeps_paths_witness:
  "''g2'' \<notin> set (persisted_path_keys (user_data_file st_stale)) \<and>
   ''g1'' \<in> set (persisted_path_keys (user_data_file st_stale)) \<and>
   map_of (extractionPaths st_stale) ''g1'' = Some (JObj [(''path'', JStr ''/old/g1'')]) \<and>
   map_of (extractionPaths (fst (loadProfile st_stale))) ''g1'' =
     Some (JObj [(''path'', JStr ''/d/g1/extracted''),
                 (''execTarget'', JStr ''/d/g1/extracted/Terraria.exe'')]) \<and>
   map_of (extractionPaths (fst (loadProfile st_stale))) ''g2'' =
     Some (JObj [(''path'', JStr ''/d/g2/extracted''),
                 (''execTarget'', JStr ''/d/g2/extracted/Terraria.exe'')]) \<and>
   (\<exists>w saved. user_data_file (saveProfile False (JObj []) (fst (loadProfile st_stale))) = JsonText w \<and>
       prop_get w ''extractionPaths'' = Some saved \<and>
       prop_get saved ''g2'' =
         Some (JObj [(''path'', JStr ''/d/g2/extracted''),
                     (''execTarget'', JStr ''/d/g2/extracted/Terraria.exe'')])) \<and>
   extractionPaths (fst (loadProfile st_mixed_records)) = extractionPaths st_mixed_records"
proof -
  have f: "user_data_file st_stale = JsonText (JObj [(''library'', JArr [JObj [(''id'', JStr ''g1'')]] []),
               (''user'', JObj [(''name'', JStr ''Ann'')]),
               (''extractionPaths'', JObj [(''g1'', JObj [(''path'', JStr ''/d/g1/extracted''), (''execTarget'', JStr ''/d/g1/extracted/Terraria.exe'')])])])"
    by (simp add: st_stale_def st0_def)
  have ok: "usable_profile (JObj [(''library'', JArr [JObj [(''id'', JStr ''g1'')]] []),
               (''user'', JObj [(''name'', JStr ''Ann'')]),
               (''extractionPaths'', JObj [(''g1'', JObj [(''path'', JStr ''/d/g1/extracted''), (''execTarget'', JStr ''/d/g1/extracted/Terraria.exe'')])])])"
    by (simp add: usable_profile_def)
  have a: "''g2'' \<notin> set (persisted_path_keys (user_data_file st_stale))"
    by (simp add: f persisted_path_keys_def own_entries_def)
  have a1: "''g1'' \<in> set (persisted_path_keys (user_data_file st_stale))"
    by (simp add: f persisted_path_keys_def own_entries_def)
  have e1: "persisted_path_entry (user_data_file st_stale) ''g1'' =
      Some (JObj [(''path'', JStr ''/d/g1/extracted''),
                 (''execTarget'', JStr ''/d/g1/extracted/Terraria.exe'')])"
    by (simp add: f persisted_path_entry_def own_entries_def)
  have b: "map_of (extractionPaths st_stale) ''g2'' =
     Some (JObj [(''path'', JStr ''/d/g2/extracted''),
                 (''execTarget'', JStr ''/d/g2/extracted/Terraria.exe'')])"
    by (simp add: st_stale_def)
  have b1: "map_of (extractionPaths st_stale) ''g1'' = Some (JObj [(''path'', JStr ''/old/g1'')])"
    by (simp add: st_stale_def)
  from a b C10_load_merges_and_keeps_paths [of "''g2''" st_stale
      "JObj [(''path'', JStr ''/d/g2/extracted''),
             (''execTarget'', JStr ''/d/g2/extracted/Terraria.exe'')]" "[]"]
  have 2: "map_of (extractionPaths (fst (loadProfile st_stale))) ''g2'' =
     Some (JObj [(''path'', JStr ''/d/g2/extracted''),
                 (''execTarget'', JStr ''/d/g2/extracted/Terraria.exe'')]) \<and>
   (\<exists>w saved. user_data_file (saveProfile False (JObj []) (fst (loadProfile st_stale))) = JsonText w \<and>
       prop_get w ''extractionPaths'' = Some saved \<and>
       prop_get saved ''g2'' =
         Some (JObj [(''path'', JStr ''/d/g2/extracted''),
                     (''execTarget'', JStr ''/d/g2/extracted/Terraria.exe'')]))"
    by simp
  from C10_load_merges_and_keeps_paths [of "''g1''" st_stale undefined "[]"] f ok a1
  have "map_of (extractionPaths (fst (loadProfile st_stale))) ''g1'' =
      persisted_path_entry (user_data_file st_stale) ''g1''"
    by blast
  with e1 have 1: "map_of (extractionPaths (fst (loadProfile st_stale))) ''g1'' =
     Some (JObj [(''path'', JStr ''/d/g1/extracted''),
                 (''execTarget'', JStr ''/d/g1/extracted/Terraria.exe'')])"
    by simp
  have nu: "\<forall>v. user_data_file st_mixed_records = JsonText v \<longrightarrow> \<not> usable_profile v"
    by (simp add: st_mixed_records_def usable_profile_def)
  from C10_load_merges_and_keeps_paths [of "''g1''" st_mixed_records undefined "[]"] nu
  have 3: "extractionPaths (fst (loadProfile st_mixed_records)) = extractionPaths st_mixed_records"
    by blast
  from a a1 b1 1 2 3 show ?thesis by simp
qed

section \<open>Archive extraction\<close>

lemma on_close_cases:
  "on_close env dir gameId code st = (st', r) \<Longrightarrow>
     (\<exists>failure. r = Inl failure \<and> st' = st) \<or>
     (r = Inr () \<and> code = Some 0 \<and>
      (\<exists>files execFile. extracted_listing env = Inr files \<and> files \<noteq> [] \<and>
          findExecutable dir (Some files) ''Terraria.exe'' = Some execFile \<and>
          extractionPaths st' =
            AList.update gameId (JObj [(''path'', JStr dir), (''execTarget'', JStr execFile)])
              (extractionPaths st) \<and>
          user_data_file st' = user_data_file st))"
  by (auto simp: on_close_def send_def Let_def split: if_splits sum.splits option.splits)

lemma handleExtraction_cases:
  assumes "handleExtraction env downloadPath gameId st = (st', r)"
  shows "(\<exists>failure. r = Inl failure \<and> extractionPaths st' = extractionPaths st \<and>
            user_data_file st' = user_data_file st) \<or>
     (r = Inr () \<and>
      (\<exists>listing rarFile chunks files execFile.
          download_listing env = Inr listing \<and> find (\<lambda>file. endsWith file ''.rar'') listing = Some rarFile \<and>
          decoder env = Closed chunks (Some 0) \<and>
          extracted_listing env = Inr files \<and> files \<noteq> [] \<and>
          findExecutable (path_join downloadPath ''extracted'') (Some files) ''Terraria.exe'' = Some execFile \<and>
          extractionPaths st' =
            AList.update gameId
              (JObj [(''path'', JStr (path_join downloadPath ''extracted'')), (''execTarget'', JStr execFile)])
              (extractionPaths st)))"
proof (cases "download_listing env")
  case (Inl m)
  then show ?thesis using assms by (auto simp: handleExtraction_def)
next
  case (Inr listing)
  show ?thesis
  proof (cases "find (\<lambda>file. endsWith file ''.rar'') listing")
    case None
    then show ?thesis using assms Inr by (auto simp: handleExtraction_def)
  next
    case (Some rarFile)
    show ?thesis
    proof (cases "(if \<not> extraction_dir_exists env then mkdir_error env else None) = None \<and> \<not> destroyed_at_start env")
      case False
      then show ?thesis using assms Inr Some
        by (auto simp: handleExtraction_def Let_def split: option.splits if_splits)
    next
      case True
      show ?thesis
      proof (cases "decoder env")
        case (SpawnError m)
        then show ?thesis using assms Inr Some True
          by (auto simp: handleExtraction_def Let_def send_def split: option.splits if_splits)
      next
        case (Closed chunks code)
        define st2 where "st2 = (send (DecompressionStart gameId) st)\<lparr> outbox :=
            outbox (send (DecompressionStart gameId) st) @ delivered (stdout_run gameId chunks new_session) \<rparr>"
        have oc: "on_close env (path_join downloadPath ''extracted'') gameId code st2 = (st', r)"
          using assms Inr Some True Closed
          by (auto simp: handleExtraction_def Let_def st2_def split: option.splits if_splits)
        have 2: "extractionPaths st2 = extractionPaths st" "user_data_file st2 = user_data_file st"
          by (simp_all add: st2_def send_def)
        from on_close_cases [OF oc] show ?thesis
          using 2 Inr Some Closed by auto
      qed
    qed
  qed
qed

text \<open>
  Claim C8.  \<^verbatim>\<open>handleExtraction\<close> leaves the installed-path table as it was whenever
  it rejects.  The table changes only when the promise resolves, and then the decoder
  has closed with status 0, the output directory is not empty, the locator has found
  the target, and the record written for the item holds that path.  Each failure branch
  (no archive, the decoder not starting, a non-zero exit, an empty output directory, the
  target not found) ends in a rejection.
\<close>

theorem C8_installed_path_only_on_success:
  assumes "handleExtraction env downloadPath gameId st = (st', r)"
  shows "(\<forall>failure. r = Inl failure \<longrightarrow> extractionPaths st' = extractionPaths st) \<and>
     (extractionPaths st' \<noteq> extractionPaths st \<longrightarrow>
        r = Inr () \<and>
        (\<exists>chunks files execFile.
            decoder env = Closed chunks (Some 0) \<and>
            extracted_listing env = Inr files \<and> files \<noteq> [] \<and>
            findExecutable (path_join downloadPath ''extracted'') (Some files) ''Terraria.exe'' = Some execFile \<and>
            extractionPaths st' =
              AList.update gameId
                (JObj [(''path'', JStr (path_join downloadPath ''extracted'')), (''execTarget'', JStr execFile)])
                (extractionPaths st))) \<and>
     (\<forall>listing. download_listing env = Inr listing \<and>
          find (\<lambda>file. endsWith file ''.rar'') listing = None \<longrightarrow> (\<exists>failure. r = Inl failure)) \<and>
     (\<forall>message. decoder env = SpawnError message \<longrightarrow> (\<exists>failure. r = Inl failure)) \<and>
     (\<forall>chunks code. decoder env = Closed chunks code \<and> code \<noteq> Some 0 \<longrightarrow> (\<exists>failure. r = Inl failure)) \<and>
     (extracted_listing env = Inr [] \<longrightarrow> (\<exists>failure. r = Inl failure)) \<and>
     (\<forall>files. extracted_listing env = Inr files \<and>
          findExecutable (path_join downloadPath ''extracted'') (Some files) ''Terraria.exe'' = None \<longrightarrow>
          (\<exists>failure. r = Inl failure))"
  using handleExtraction_cases [OF assms]
proof (elim disjE exE conjE)
  fix failure
  assume "r = Inl failure" "extractionPaths st' = extractionPaths st"
  then show ?thesis by simp
next
  fix listing rarFile chunks files execFile
  assume "r = Inr ()" "download_listing env = Inr listing"
    "find (\<lambda>file. endsWith file ''.rar'') listing = Some rarFile"
    "decoder env = Closed chunks (Some 0)" "extracted_listing env = Inr files" "files \<noteq> []"
    "findExecutable (path_join downloadPath ''extracted'') (Some files) ''Terraria.exe'' = Some execFile"
    "extractionPaths st' =
       AList.update gameId
         (JObj [(''path'', JStr (path_join downloadPath ''extracted'')), (''execTarget'', JStr execFile)])
         (extractionPaths st)"
  then show ?thesis by simp
qed

theorem C8_installed_path_only_on_success_witness:
  "extractionPaths (fst (handleExtraction env_ok ''/dl/g1'' ''g1'' st_absent)) \<noteq> extractionPaths st_absent \<and>
   snd (handleExtraction env_ok ''/dl/g1'' ''g1'' st_absent) = Inr () \<and>
   extracted_listing env_ok = Inr [DirEnt ''Game'' (Some [FileEnt ''terraria.exe''])] \<and>
   findExecutable (path_join ''/dl/g1'' ''extracted'')
      (Some [DirEnt ''Game'' (Some [FileEnt ''terraria.exe''])]) ''Terraria.exe''
     = Some ''/dl/g1/extracted/Game/terraria.exe'' \<and>
   snd (handleExtraction env_empty_output ''/dl/g1'' ''g1'' st_absent) = Inl NoFilesAfterExtraction \<and>
   extractionPaths (fst (handleExtraction env_empty_output ''/dl/g1'' ''g1'' st_absent)) = extractionPaths st_absent"
proof -
  have ok: "handleExtraction env_ok ''/dl/g1'' ''g1'' st_absent =
      (\<lparr>user_data_file = NoFile,
         extractionPaths =
           [(''g1'', JObj [(''path'', JStr ''/dl/g1/extracted''),
                          (''execTarget'', JStr ''/dl/g1/extracted/Game/terraria.exe'')])],
         windows = 1,
         outbox = [DecompressionStart ''g1'', DecompressionProgress ''g1'' 10,
                   DecompressionProgress ''g1'' 100, DecompressionComplete ''g1'']\<rparr>, Inr ())"
    by code_simp
  have bad: "handleExtraction env_empty_output ''/dl/g1'' ''g1'' st_absent =
      (\<lparr>user_data_file = NoFile, extractionPaths = [], windows = 1,
         outbox = [DecompressionStart ''g1'', DecompressionProgress ''g1'' 10,
                   DecompressionProgress ''g1'' 100]\<rparr>, Inl NoFilesAfterExtraction)"
    by code_simp
  have t: "extractionPaths st_absent = []" by (simp add: st_absent_def)
  have l: "extracted_listing env_ok = Inr [DirEnt ''Game'' (Some [FileEnt ''terraria.exe''])]"
    by (simp add: env_ok_def)
  have f: "findExecutable (path_join ''/dl/g1'' ''extracted'')
      (Some [DirEnt ''Game'' (Some [FileEnt ''terraria.exe''])]) ''Terraria.exe''
     = Some ''/dl/g1/extracted/Game/terraria.exe''"
    by code_simp
  from C8_installed_path_only_on_success [OF ok] C8_installed_path_only_on_success [OF bad] t l f
  show ?thesis by (simp add: ok bad)
qed

section \<open>Launching an installed game\<close>

lemma props_free_prop:
  "props_free v \<Longrightarrow> prop_get v k = Some x \<Longrightarrow> props_free x"
  by (cases v) (auto simp: prop_get_def props_def dest!: map_of_SomeD)
















text \<open>
  A target without a base name: \<^verbatim>\<open>execFile('')\<close> throws inside the executor, the
  promise is rejected and the state is untouched.
\<close>

lemma launch_game_rejects_empty_basename:
  "launch_game (JStr ''g1'') env_crash
     (st_installed\<lparr> extractionPaths := [(''g1'', JObj [(''execTarget'', JStr ''/'')])] \<rparr>) =
   (st_installed\<lparr> extractionPaths := [(''g1'', JObj [(''execTarget'', JStr ''/'')])] \<rparr>,
    Inl (Rejected TypeError))"
  by code_simp




text \<open>
  Claim C6 (what the code does when the process ends with an error).  The callback
  adds the 7 elapsed seconds to the record and saves the profile, resolves the promise
  with the failure and returns (line 428) before the broadcast of lines 435-437: no
  \<^verbatim>\<open>update-playtime\<close> event is sent.  After a clean exit the event is sent.
\<close>

theorem C6_no_notification_after_failed_exit:
  "launch_game (JStr ''g1'') env_crash st_installed =
     (\<lparr>user_data_file =
         JsonText (JObj [(''library'', JArr [JObj [(''id'', JStr ''g0''), (''playtime'', JNum 3)],
                                             JObj [(''id'', JStr ''g1''), (''playtime'', JNum 12)]] []),
                         (''user'', JObj [(''name'', JStr ''Ann''), (''level'', JNum 1),
                                         (''picture'', JNull), (''expositors'', JArr [] [])]),
                         (''extractionPaths'', JObj [(''g1'', JObj [(''path'', JStr ''/d/g1/extracted''),
                                        (''execTarget'', JStr ''/d/g1/extracted/Terraria.exe'')])])]),
       extractionPaths = [(''g1'', JObj [(''path'', JStr ''/d/g1/extracted''),
                                        (''execTarget'', JStr ''/d/g1/extracted/Terraria.exe'')])],
       windows = 1,
       outbox = [ProfileLoaded (JArr [JObj [(''id'', JStr ''g0''), (''playtime'', JNum 3)],
                                      JObj [(''id'', JStr ''g1''), (''playtime'', JNum 5)]] [])]\<rparr>,
      Inr (Failed (LaunchFailed ''Command failed''))) \<and>
   outbox (fst (launch_game (JStr ''g1'') env_clean_exit st_installed)) =
     [ProfileLoaded (JArr [JObj [(''id'', JStr ''g0''), (''playtime'', JNum 3)],
                           JObj [(''id'', JStr ''g1''), (''playtime'', JNum 5)]] []),
      UpdatePlaytime ''g1'']"
  by code_simp

section \<open>The download handler\<close>

lemma on_torrent_event_no_failure:
  assumes "no_failure_reply (snd s)"
  shows "no_failure_reply (snd (on_torrent_event downloadPath gameId e s))"
proof (cases s)
  case (Pair st c)
  with assms have c: "no_failure_reply c" by simp
  show ?thesis
  proof (cases e)
    case (Download destroyed stats)
    then show ?thesis using c Pair by (simp add: on_torrent_event_def)
  next
    case (Done err env destroyed)
    obtain st' r where h: "handleExtraction env downloadPath gameId st = (st', r)"
      by (cases "handleExtraction env downloadPath gameId st")
    show ?thesis
      using c Pair Done h
      by (cases err; cases r)
        (auto simp: on_torrent_event_def reject_def resolve_def no_failure_reply_def
          split: option.splits)
  next
    case (TorrentError message)
    then show ?thesis using c Pair
      by (simp add: on_torrent_event_def reject_def no_failure_reply_def)
  qed
qed

lemma torrent_events_no_failure:
  "no_failure_reply (snd s0) \<Longrightarrow>
   no_failure_reply (snd (foldl (\<lambda>s e. on_torrent_event p g e s) s0 events))"
  by (induction events arbitrary: s0) (simp_all add: on_torrent_event_no_failure)

lemma download_never_reports_failure:
  assumes "g \<noteq> []"
  shows "no_failure_reply (snd (start_torrent_download downloads (JStr g) events st))"
  using assms torrent_events_no_failure [of "(st, new_call)" "path_join downloads g" g events]
  by (simp add: start_torrent_download_def new_call_def no_failure_reply_def)

text \<open>
  Claim C2 (what the code does on an engine error and on a failed deregistration).
  In both cases the handler reaches a call of the unbound \<^verbatim>\<open>reject\<close>: a
  \<^verbatim>\<open>ReferenceError\<close> escapes the event handler and the promise of the call stays
  pending, so no reply, failed or otherwise, is ever returned.
\<close>

theorem C2_transfer_error_leaves_call_pending:
  "start_torrent_download ''/dl'' (JStr ''g1'') [TorrentError ''tracker unreachable''] st_absent =
     (st_absent, \<lparr> promise = None, uncaught = [ReferenceError ''reject''] \<rparr>) \<and>
   start_torrent_download ''/dl'' (JStr ''g1'') [Done (Some ''cannot remove'') env_ok False] st_absent =
     (st_absent, \<lparr> promise = None, uncaught = [ReferenceError ''reject''] \<rparr>)"
  by (simp add: start_torrent_download_def on_torrent_event_def reject_def new_call_def)

section \<open>Loading, saving and loading again\<close>

lemma stringify_props_free: "props_free v \<Longrightarrow> stringify v = v"
proof (induction v rule: props_free.induct)
  case (1 xs ps)
  then show ?case by (auto intro: map_idI)
next
  case (2 ps)
  then have "map (\<lambda>(k, v). (k, stringify v)) ps = ps"
    by (intro map_idI) auto
  then show ?case by simp
qed simp_all

lemma props_free_update:
  "props_free (JObj ps) \<Longrightarrow> props_free x \<Longrightarrow> props_free (JObj (AList.update k x ps))"
  by (induction ps) auto

lemma or_else_props_free:
  "(\<And>x. a = Some x \<Longrightarrow> props_free x) \<Longrightarrow> props_free d \<Longrightarrow> props_free (or_else a d)"
  by (cases a) (auto simp: or_else_def)

lemma or_else_idem: "or_else (Some (or_else a (JNum 0))) (JNum 0) = or_else a (JNum 0)"
  by (cases a) (auto simp: or_else_def)

lemma or_else_idem_truthy: "truthy (Some d) \<Longrightarrow> or_else (Some (or_else a d)) d = or_else a d"
  by (cases a) (auto simp: or_else_def)

lemma or_else_idem_null: "or_else (Some (or_else a JNull)) JNull = or_else a JNull"
  by (cases a) (auto simp: or_else_def)

lemma update_same: "map_of ps k = Some x \<Longrightarrow> AList.update k x ps = ps"
  by (induction ps) auto

lemma update_twice: "AList.update k x (AList.update k x ps) = AList.update k x ps"
  by (induction ps) auto

lemma backfill_plain:
  assumes "list_all is_plain_object games"
  shows "\<exists>games'. backfill_playtime games = Inr games' \<and> list_all is_plain_object games' \<and>
           backfill_playtime games' = Inr games' \<and>
           ((\<forall>g \<in> set games. props_free g) \<longrightarrow> (\<forall>g \<in> set games'. props_free g))"
  using assms
proof (induction games)
  case Nil
  then show ?case by simp
next
  case (Cons g games)
  then obtain rs where g: "g = JObj rs" by (cases g) auto
  from Cons obtain games' where
    IH: "backfill_playtime games = Inr games'" "list_all is_plain_object games'"
        "backfill_playtime games' = Inr games'"
        "(\<forall>g \<in> set games. props_free g) \<longrightarrow> (\<forall>g \<in> set games'. props_free g)"
    by auto
  define g' where "g' = JObj (AList.update ''playtime'' (or_else (map_of rs ''playtime'') (JNum 0)) rs)"
  have 1: "backfill_playtime (g # games) = Inr (g' # games')"
    using g IH(1) by (simp add: g'_def)
  have 2: "backfill_playtime (g' # games') = Inr (g' # games')"
    using IH(3) by (simp add: g'_def update_conv' or_else_idem update_twice)
  have 3: "props_free g \<Longrightarrow> props_free g'"
    unfolding g'_def g
    by (intro props_free_update or_else_props_free) (auto dest!: map_of_SomeD)
  from 1 2 3 IH(2,4) show ?case by (auto simp: g'_def)
qed

lemma rebuild_user_plain:
  "\<exists>user'. rebuild_user (JObj us) = Inr user' \<and> is_plain_object user' \<and>
      rebuild_user user' = Inr user' \<and> (props_free (JObj us) \<longrightarrow> props_free user')"
proof -
  have e: "(case map_of us ''expositors'' of Some (JArr xs ps) \<Rightarrow> JArr xs ps | _ \<Rightarrow> JArr [] [])
             = JArr xs ps \<Longrightarrow> props_free (JObj us) \<Longrightarrow> props_free (JArr xs ps)" for xs ps
    by (auto split: option.splits jsval.splits dest!: map_of_SomeD)
  have i: "(case Some (case map_of us ''expositors'' of Some (JArr xs ps) \<Rightarrow> JArr xs ps | _ \<Rightarrow> JArr [] [])
            of Some (JArr xs ps) \<Rightarrow> JArr xs ps | _ \<Rightarrow> JArr [] [])
          = (case map_of us ''expositors'' of Some (JArr xs ps) \<Rightarrow> JArr xs ps | _ \<Rightarrow> JArr [] [])"
    by (auto split: option.splits jsval.splits)
  have p: "props_free (JObj us) \<Longrightarrow> props_free (or_else (map_of us k) d)" if "props_free d" for k d
    using that by (intro or_else_props_free) (auto dest!: map_of_SomeD)
  show ?thesis
    using i e p
    by (auto simp: rebuild_user_def or_else_idem or_else_idem_truthy or_else_idem_null
        split: option.splits jsval.splits)
qed

lemma load_paths_plain:
  assumes "case prop_get d ''extractionPaths'' of
             None \<Rightarrow> True
           | Some saved \<Rightarrow> is_plain_object saved \<and> prop_get saved ''hasOwnProperty'' = None"
  obtains table' where
    "load_extraction_paths d table = Inr table'" and
    "\<And>k. map_of table' k =
        (if k \<in> set (persisted_path_keys (JsonText d)) then saved_path (JsonText d) k
         else map_of table k)"
proof (cases "prop_get d ''extractionPaths''")
  case None
  then have "load_extraction_paths d table = Inr table"
    by (simp add: load_extraction_paths_def)
  moreover have "map_of table k =
        (if k \<in> set (persisted_path_keys (JsonText d)) then saved_path (JsonText d) k
         else map_of table k)" for k
    using None by (simp add: persisted_path_keys_def)
  ultimately show ?thesis by (rule that)
next
  case (Some saved)
  with assms obtain es where es: "saved = JObj es" and h: "map_of es ''hasOwnProperty'' = None"
    by (cases saved) auto
  define table' where "table' = foldl (\<lambda>t gameId. case map_of es gameId of
                                  Some v \<Rightarrow> AList.update gameId v t
                                | None \<Rightarrow> t) table (map fst es)"
  have 1: "load_extraction_paths d table = Inr table'"
    using Some es h
    by (simp add: load_extraction_paths_def merge_paths_def own_entries_def props_def table'_def)
  have 2: "map_of table' k =
        (if k \<in> set (persisted_path_keys (JsonText d)) then saved_path (JsonText d) k
         else map_of table k)" for k
  proof (cases "k \<in> set (map fst es)")
    case True
    then obtain e where e: "map_of es k = Some e"
      by (metis map_of_eq_None_iff not_None_eq set_map)
    from merge_fold_member [OF True e, of table] show ?thesis
      using True Some es e
      by (simp add: table'_def persisted_path_keys_def saved_path_def own_entries_def)
  next
    case False
    from merge_fold_other [OF False, of es table] show ?thesis
      using False Some es
      by (simp add: table'_def persisted_path_keys_def own_entries_def)
  qed
  from 1 2 show ?thesis by (rule that)
qed

lemma map_stringify_update:
  "map (\<lambda>(k, v). (k, stringify v)) (AList.update k0 x ps) =
   AList.update k0 (stringify x) (map (\<lambda>(k, v). (k, stringify v)) ps)"
  by (induction ps) auto

lemma stringify_entries_props_free:
  "props_free (JObj ps) \<Longrightarrow> map (\<lambda>(k, v). (k, stringify v)) ps = ps"
  using stringify_props_free [of "JObj ps"] by simp

lemma paths_of_same_table:
  assumes "prop_get d ''extractionPaths'' = prop_get v ''extractionPaths''"
  shows "persisted_path_keys (JsonText d) = persisted_path_keys (JsonText v)"
    and "saved_path (JsonText d) k = saved_path (JsonText v) k"
  using assms by (simp_all add: persisted_path_keys_def saved_path_def)

lemma well_formed_load:
  assumes wf: "well_formed_profile v"
  obtains vs games lps us games' user' table' where
    "v = JObj vs" and "map_of vs ''library'' = Some (JArr games lps)" and
    "map_of vs ''user'' = Some (JObj us)" and
    "backfill_playtime games = Inr games'" and "backfill_playtime games' = Inr games'" and
    "rebuild_user (JObj us) = Inr user'" and "rebuild_user user' = Inr user'" and
    "props_free (JObj (AList.update ''user'' user' (AList.update ''library'' (JArr games' lps) vs)))" and
    "normalize_parsed v table =
       Inr (JObj (AList.update ''user'' user' (AList.update ''library'' (JArr games' lps) vs)),
            JArr games' lps, table')" and
    "\<forall>k. map_of table' k =
        (if k \<in> set (persisted_path_keys (JsonText v)) then saved_path (JsonText v) k
         else map_of table k)"
proof -
  from wf have pf: "props_free v" by (simp add: well_formed_profile_def)
  from wf obtain games lps where lib: "prop_get v ''library'' = Some (JArr games lps)"
    and plain: "list_all is_plain_object games"
    by (auto simp: well_formed_profile_def split: option.splits jsval.splits)
  from wf obtain us where usr: "prop_get v ''user'' = Some (JObj us)"
    by (auto simp: well_formed_profile_def split: option.splits elim: is_plain_object.elims)
  from wf have ep: "case prop_get v ''extractionPaths'' of
             None \<Rightarrow> True
           | Some saved \<Rightarrow> is_plain_object saved \<and> prop_get saved ''hasOwnProperty'' = None"
    by (simp add: well_formed_profile_def)
  from pf lib obtain vs where v: "v = JObj vs"
    by (cases v) (auto simp: prop_get_def props_def)
  from props_free_prop [OF pf lib] have gs: "\<forall>g \<in> set games. props_free g" by simp
  from backfill_plain [OF plain] gs obtain games' where
    bf: "backfill_playtime games = Inr games'" "backfill_playtime games' = Inr games'" and
    gs': "\<forall>g \<in> set games'. props_free g"
    by blast
  from rebuild_user_plain [of us] props_free_prop [OF pf usr] obtain user' where
    ru: "rebuild_user (JObj us) = Inr user'" "rebuild_user user' = Inr user'" and
    pu: "props_free user'"
    by blast
  define d2 where "d2 = JObj (AList.update ''user'' user' (AList.update ''library'' (JArr games' lps) vs))"
  have lps: "lps = []" using props_free_prop [OF pf lib] by simp
  have pd: "props_free d2"
    unfolding d2_def using pf v pu gs' lps
    by (intro props_free_update) simp_all
  have same: "prop_get d2 ''extractionPaths'' = prop_get v ''extractionPaths''"
    by (simp add: d2_def v update_conv')
  from ep same have "case prop_get d2 ''extractionPaths'' of
             None \<Rightarrow> True
           | Some saved \<Rightarrow> is_plain_object saved \<and> prop_get saved ''hasOwnProperty'' = None"
    by simp
  then have "\<exists>table'. load_extraction_paths d2 table = Inr table' \<and>
      (\<forall>k. map_of table' k =
        (if k \<in> set (persisted_path_keys (JsonText d2)) then saved_path (JsonText d2) k
         else map_of table k))"
    by (rule load_paths_plain [where table = table]) (intro exI conjI allI; assumption)
  then obtain table' where
    lp: "load_extraction_paths d2 table = Inr table'" and
    tb: "\<And>k. map_of table' k =
        (if k \<in> set (persisted_path_keys (JsonText d2)) then saved_path (JsonText d2) k
         else map_of table k)"
    by (elim exE conjE) simp
  have np: "normalize_parsed v table = Inr (d2, JArr games' lps, table')"
    using lib usr bf(1) ru(1) lp
    by (simp add: normalize_parsed_def v d2_def)
  have tb': "\<forall>k. map_of table' k =
        (if k \<in> set (persisted_path_keys (JsonText v)) then saved_path (JsonText v) k
         else map_of table k)"
    using tb paths_of_same_table [OF same] by simp
  show ?thesis
    using v lib usr bf ru pd np tb'
    unfolding d2_def
    by (intro that [of vs games lps us games' user' table']) (simp_all add: v)
qed

lemma saved_path_props_free:
  "props_free v \<Longrightarrow> saved_path (JsonText v) k = Some e \<Longrightarrow> props_free e"
  by (auto simp: saved_path_def split: option.splits dest: props_free_prop)

lemma loadProfile_normalized:
  assumes "user_data_file st = JsonText v" and "structure_ok v"
    and "normalize_parsed v (extractionPaths st) = Inr (p, library, table')"
  shows "loadProfile st = (broadcast (ProfileLoaded library) (st\<lparr> extractionPaths := table' \<rparr>), p)"
  using assms by (simp add: loadProfile_def loadProfile_try_def load_validated_def)

text \<open>
  Claim C9, as amended.  For a well-formed persisted profile, and an in-memory table
  with no entry called \<^verbatim>\<open>hasOwnProperty\<close>, \<^verbatim>\<open>save(load())\<close> writes a profile that
  the next load returns as it is.  Against the original file it has the same library
  with every record back-filled, the user with its defaults filled, every other
  top-level field unchanged, and an installed-path table that holds each entry of the
  file and, for every other item id, the entry of the in-memory table.
\<close>

theorem C9_round_trip_up_to_normalization:
  assumes f: "user_data_file st = JsonText v" and wf: "well_formed_profile v"
    and h: "map_of (extractionPaths st) ''hasOwnProperty'' = None"
  shows "\<exists>w. user_data_file (save_after_load st) = JsonText w \<and>
           snd (loadProfile (save_after_load st)) = w \<and>
           (\<exists>games lps games'.
               prop_get v ''library'' = Some (JArr games lps) \<and>
               prop_get w ''library'' = Some (JArr games' lps) \<and>
               list_all2 backfilled_game games games') \<and>
           (\<exists>user user'.
               prop_get v ''user'' = Some user \<and> prop_get w ''user'' = Some user' \<and>
               user_defaults_filled user user') \<and>
           (\<forall>k. k \<noteq> ''library'' \<and> k \<noteq> ''user'' \<and> k \<noteq> ''extractionPaths'' \<longrightarrow>
                prop_get w k = prop_get v k) \<and>
           (\<forall>k. saved_path (JsonText w) k =
                (if k \<in> set (persisted_path_keys (JsonText v)) then saved_path (JsonText v) k
                 else map_option stringify (map_of (extractionPaths st) k)))"
proof -
  from wf have pf: "props_free v" by (simp add: well_formed_profile_def)
  from wf have no_h: "saved_path (JsonText v) ''hasOwnProperty'' = None"
    by (auto simp: well_formed_profile_def saved_path_def split: option.splits)
  from wf obtain vs games lps us games' user' T1 where
    v: "v = JObj vs" and lib: "map_of vs ''library'' = Some (JArr games lps)" and
    usr: "map_of vs ''user'' = Some (JObj us)" and
    bf: "backfill_playtime games = Inr games'" and bf': "backfill_playtime games' = Inr games'" and
    ru: "rebuild_user (JObj us) = Inr user'" and ru': "rebuild_user user' = Inr user'" and
    pd: "props_free (JObj (AList.update ''user'' user' (AList.update ''library'' (JArr games' lps) vs)))" and
    np: "normalize_parsed v (extractionPaths st) =
       Inr (JObj (AList.update ''user'' user' (AList.update ''library'' (JArr games' lps) vs)),
            JArr games' lps, T1)" and
    T1a: "\<forall>k. map_of T1 k =
        (if k \<in> set (persisted_path_keys (JsonText v)) then saved_path (JsonText v) k
         else map_of (extractionPaths st) k)"
    by (rule well_formed_load [where table = "extractionPaths st"])
  from T1a have T1: "map_of T1 k =
        (if k \<in> set (persisted_path_keys (JsonText v)) then saved_path (JsonText v) k
         else map_of (extractionPaths st) k)" for k
    by blast
  define ps where "ps = AList.update ''user'' user' (AList.update ''library'' (JArr games' lps) vs)"
  define T1s where "T1s = map (\<lambda>(k, x). (k, stringify x)) T1"
  define qs where "qs = AList.update ''extractionPaths'' (JObj T1s) ps"
  define st1 where "st1 = broadcast (ProfileLoaded (JArr games' lps)) (st\<lparr> extractionPaths := T1 \<rparr>)"
  have ok: "structure_ok v" using v lib usr by (simp add: structure_ok_def)
  have l1: "loadProfile st = (st1, JObj ps)"
    using loadProfile_normalized [OF f ok np] by (simp add: st1_def ps_def)
  have w: "stringify (JObj (AList.update ''extractionPaths'' (JObj T1) ps)) = JObj qs"
    using stringify_entries_props_free [OF pd]
    by (simp add: map_stringify_update qs_def T1s_def ps_def)
  have st2: "save_after_load st = st1\<lparr> user_data_file := JsonText (JObj qs) \<rparr>"
    using w by (simp add: save_after_load_def l1 saveProfile_def st1_def)
  have written: "user_data_file (save_after_load st) = JsonText (JObj qs)"
    by (simp add: st2)
  have tab: "extractionPaths (save_after_load st) = T1"
    by (simp add: st2 st1_def)
  have ql: "map_of qs ''library'' = Some (JArr games' lps)"
    and qu: "map_of qs ''user'' = Some user'"
    and qe: "map_of qs ''extractionPaths'' = Some (JObj T1s)"
    and qo: "\<And>k. k \<noteq> ''library'' \<Longrightarrow> k \<noteq> ''user'' \<Longrightarrow> k \<noteq> ''extractionPaths'' \<Longrightarrow>
               map_of qs k = map_of vs k"
    by (simp_all add: qs_def ps_def update_conv')
  have T1s: "map_of T1s k = map_option stringify (map_of T1 k)" for k
    by (simp add: T1s_def map_of_stringify)
  have paths: "saved_path (JsonText (JObj qs)) k =
                (if k \<in> set (persisted_path_keys (JsonText v)) then saved_path (JsonText v) k
                 else map_option stringify (map_of (extractionPaths st) k))" for k
  proof (cases "k \<in> set (persisted_path_keys (JsonText v))")
    case True
    show ?thesis
    proof (cases "saved_path (JsonText v) k")
      case None
      then show ?thesis using True by (simp add: saved_path_def qe T1s T1)
    next
      case (Some e)
      from saved_path_props_free [OF pf Some] have "stringify e = e"
        by (rule stringify_props_free)
      then show ?thesis using True Some by (simp add: saved_path_def qe T1s T1)
    qed
  next
    case False
    then show ?thesis by (simp add: saved_path_def qe T1s T1)
  qed
  have "map_of T1 ''hasOwnProperty'' = None"
    using T1 [of "''hasOwnProperty''"] no_h h by simp
  then have "case prop_get (JObj qs) ''extractionPaths'' of
             None \<Rightarrow> True
           | Some saved \<Rightarrow> is_plain_object saved \<and> prop_get saved ''hasOwnProperty'' = None"
    by (simp add: qe T1s)
  then have "\<exists>T2. load_extraction_paths (JObj qs) T1 = Inr T2"
    by (rule load_paths_plain [where table = T1]) (intro exI; assumption)
  then obtain T2 where T2: "load_extraction_paths (JObj qs) T1 = Inr T2" ..
  have np2: "normalize_parsed (JObj qs) T1 = Inr (JObj qs, JArr games' lps, T2)"
    using ql qu bf' ru' T2
    by (simp add: normalize_parsed_def update_same)
  from ru have "is_plain_object user'" by (auto simp: rebuild_user_def)
  then have ok2: "structure_ok (JObj qs)"
    using ql qu by (cases user') (simp_all add: structure_ok_def)
  have l2: "snd (loadProfile (save_after_load st)) = JObj qs"
    using loadProfile_normalized [OF written ok2, of "JObj qs" "JArr games' lps" T2] np2
    by (simp add: tab)
  have c3: "\<exists>games lps games'.
               prop_get v ''library'' = Some (JArr games lps) \<and>
               prop_get (JObj qs) ''library'' = Some (JArr games' lps) \<and>
               list_all2 backfilled_game games games'"
    using lib ql backfill_playtime_backfills [OF bf] by (auto simp: v)
  have c4: "\<exists>user user'.
               prop_get v ''user'' = Some user \<and> prop_get (JObj qs) ''user'' = Some user' \<and>
               user_defaults_filled user user'"
    using usr qu rebuild_user_fills [OF ru] by (auto simp: v)
  have c5: "\<forall>k. k \<noteq> ''library'' \<and> k \<noteq> ''user'' \<and> k \<noteq> ''extractionPaths'' \<longrightarrow>
                prop_get (JObj qs) k = prop_get v k"
    using qo by (simp add: v)
  have c6: "\<forall>k. saved_path (JsonText (JObj qs)) k =
                (if k \<in> set (persisted_path_keys (JsonText v)) then saved_path (JsonText v) k
                 else map_option stringify (map_of (extractionPaths st) k))"
    using paths by blast
  show ?thesis
    by (rule exI [of _ "JObj qs"], intro conjI)
      (rule written, rule l2, rule c3, rule c4, rule c5, rule c6)
qed

theorem C9_round_trip_up_to_normalization_witness:
  "user_data_file st0 =
     JsonText (JObj [(''library'', JArr [JObj [(''id'', JStr ''g1'')]] []),
                     (''user'', JObj [(''name'', JStr ''Ann'')]),
                     (''extractionPaths'',
                        JObj [(''g1'', JObj [(''path'', JStr ''/d/g1/extracted''),
                                            (''execTarget'', JStr ''/d/g1/extracted/Terraria.exe'')])])]) \<and>
   well_formed_profile
     (JObj [(''library'', JArr [JObj [(''id'', JStr ''g1'')]] []),
            (''user'', JObj [(''name'', JStr ''Ann'')]),
            (''extractionPaths'',
               JObj [(''g1'', JObj [(''path'', JStr ''/d/g1/extracted''),
                                   (''execTarget'', JStr ''/d/g1/extracted/Terraria.exe'')])])]) \<and>
   map_of (extractionPaths st0) ''hasOwnProperty'' = None \<and>
   (\<exists>w. user_data_file (save_after_load st0) = JsonText w \<and>
        snd (loadProfile (save_after_load st0)) = w \<and>
        saved_path (JsonText w) ''g1'' =
          Some (JObj [(''path'', JStr ''/d/g1/extracted''),
                      (''execTarget'', JStr ''/d/g1/extracted/Terraria.exe'')]) \<and>
        saved_path (JsonText w) ''g2'' =
          Some (JObj [(''path'', JStr ''/d/g2/extracted''),
                      (''execTarget'', JStr ''/d/g2/extracted/Terraria.exe'')]))"
proof -
  define v0 where "v0 = JObj [(''library'', JArr [JObj [(''id'', JStr ''g1'')]] []),
                     (''user'', JObj [(''name'', JStr ''Ann'')]),
                     (''extractionPaths'',
                        JObj [(''g1'', JObj [(''path'', JStr ''/d/g1/extracted''),
                                            (''execTarget'', JStr ''/d/g1/extracted/Terraria.exe'')])])]"
  have a: "user_data_file st0 = JsonText v0" by (simp add: st0_def v0_def)
  have b: "well_formed_profile v0"
    by (simp add: v0_def well_formed_profile_def)
  have c: "map_of (extractionPaths st0) ''hasOwnProperty'' = None" by (simp add: st0_def)
  have k: "''g1'' \<in> set (persisted_path_keys (JsonText v0))"
    "''g2'' \<notin> set (persisted_path_keys (JsonText v0))"
    by (simp_all add: v0_def persisted_path_keys_def own_entries_def)
  have s: "saved_path (JsonText v0) ''g1'' =
          Some (JObj [(''path'', JStr ''/d/g1/extracted''),
                      (''execTarget'', JStr ''/d/g1/extracted/Terraria.exe'')])"
    by (simp add: v0_def saved_path_def)
  have t: "map_option stringify (map_of (extractionPaths st0) ''g2'') =
          Some (JObj [(''path'', JStr ''/d/g2/extracted''),
                      (''execTarget'', JStr ''/d/g2/extracted/Terraria.exe'')])"
    by (simp add: st0_def)
  from C9_round_trip_up_to_normalization [OF a b c] obtain w where
    w: "user_data_file (save_after_load st0) = JsonText w"
       "snd (loadProfile (save_after_load st0)) = w"
       "\<forall>k. saved_path (JsonText w) k =
                (if k \<in> set (persisted_path_keys (JsonText v0)) then saved_path (JsonText v0) k
                 else map_option stringify (map_of (extractionPaths st0) k))"
    by blast
  from w(3) k s t have "saved_path (JsonText w) ''g1'' =
          Some (JObj [(''path'', JStr ''/d/g1/extracted''),
                      (''execTarget'', JStr ''/d/g1/extracted/Terraria.exe'')])"
    "saved_path (JsonText w) ''g2'' =
          Some (JObj [(''path'', JStr ''/d/g2/extracted''),
                      (''execTarget'', JStr ''/d/g2/extracted/Terraria.exe'')])"
    by simp_all
  with w(1,2) a b c show ?thesis unfolding v0_def by blast
qed

text \<open>
  Claim C9 as stated fails: when the in-memory table holds an entry that the file
  lacks (here the one a finished extraction of \<^verbatim>\<open>g2\<close> has set),
  \<^verbatim>\<open>save(load())\<close> on a well-formed, already normalised profile writes a different
  content, with the entry added.
\<close>

theorem C9_save_after_load_adds_unsaved_path:
  "user_data_file st_unsaved =
     JsonText (JObj [(''library'', JArr [] []),
                     (''user'', JObj [(''name'', JStr ''Ann''), (''level'', JNum 1),
                                     (''picture'', JNull), (''expositors'', JArr [] [])]),
                     (''extractionPaths'', JObj [])]) \<and>
   well_formed_profile
     (JObj [(''library'', JArr [] []),
            (''user'', JObj [(''name'', JStr ''Ann''), (''level'', JNum 1),
                            (''picture'', JNull), (''expositors'', JArr [] [])]),
            (''extractionPaths'', JObj [])]) \<and>
   user_data_file (save_after_load st_unsaved) =
     JsonText (JObj [(''library'', JArr [] []),
                     (''user'', JObj [(''name'', JStr ''Ann''), (''level'', JNum 1),
                                     (''picture'', JNull), (''expositors'', JArr [] [])]),
                     (''extractionPaths'',
                        JObj [(''g2'', JObj [(''path'', JStr ''/d/g2/extracted''),
                                            (''execTarget'', JStr ''/d/g2/extracted/Terraria.exe'')])])]) \<and>
   saved_path (user_data_file st_unsaved) ''g2'' = None \<and>
   saved_path (user_data_file (save_after_load st_unsaved)) ''g2'' =
     Some (JObj [(''path'', JStr ''/d/g2/extracted''),
                 (''execTarget'', JStr ''/d/g2/extracted/Terraria.exe'')]) \<and>
   user_data_file (save_after_load st_unsaved) \<noteq> user_data_file st_unsaved"
  by code_simp

end
